theory Spec2Isabelle
  imports Complex_Main
begin

section \<open>Values\<close>

text \<open>
  Request bodies and stored documents hold JavaScript values. Numbers that arrive in a
  JSON body are rationals here; strings are lists of code units below 256.
\<close>

datatype jsval =
    JUndefined
  | JNull
  | JBool bool
  | JNum rat
  | JStr string
  | JArr "jsval list"
  | JObj "(string \<times> jsval) list"

text \<open>The truthiness test of \<^verbatim>\<open>if (v)\<close>, \<^verbatim>\<open>!v\<close> and \<^verbatim>\<open>v && ...\<close>.\<close>

fun truthy :: "jsval \<Rightarrow> bool" where
  "truthy JUndefined = False"
| "truthy JNull = False"
| "truthy (JBool b) = b"
| "truthy (JNum n) = (n \<noteq> 0)"
| "truthy (JStr s) = (s \<noteq> [])"
| "truthy (JArr xs) = True"
| "truthy (JObj kvs) = True"

section \<open>The redraft route\<close>

subsection \<open>Reading the seat parameter\<close>

text \<open>
  \<^verbatim>\<open>parseInt(req.params.seat, 10)\<close>: leading white space is skipped, one sign is read,
  then the longest prefix of decimal digits; whatever follows is ignored. No digit
  gives NaN, which is \<open>None\<close> here. The value is exact in the model; the loss of
  precision of a JavaScript number above \<open>2^53\<close> never moves a value across the bounds
  the route compares it with (an array length is below \<open>2^32\<close>).
\<close>

definition isWhiteSpace :: "char \<Rightarrow> bool" where
  "isWhiteSpace c \<longleftrightarrow>
     c \<in> set [CHR 0x09, CHR 0x0A, CHR 0x0B, CHR 0x0C, CHR 0x0D, CHR 0x20, CHR 0xA0]"

definition isDigit :: "char \<Rightarrow> bool" where
  "isDigit c \<longleftrightarrow> c \<in> set ''0123456789''"

definition digitVal :: "char \<Rightarrow> int" where
  "digitVal c = int (of_char c) - 48"

definition parseInt10 :: "string \<Rightarrow> int option" where
  "parseInt10 s =
     (let t = dropWhile isWhiteSpace s;
          neg = (case t of c # r \<Rightarrow> c = CHR ''-'' | [] \<Rightarrow> False);
          u = (case t of c # r \<Rightarrow> if c = CHR ''-'' \<or> c = CHR ''+'' then r else t | [] \<Rightarrow> t);
          z = takeWhile isDigit u
      in if z = [] then None
         else Some ((if neg then - 1 else 1) * foldl (\<lambda>a c. 10 * a + digitVal c) 0 z))"

subsection \<open>Drafts and seats\<close>

type_synonym pool = "nat list"

record user =
  user_id :: string
  username :: string

text \<open>
  A seat of a draft document. \<open>bot_seat\<close> is the field \<^verbatim>\<open>bot\<close> (\<open>None\<close> is
  \<^verbatim>\<open>null\<close>); \<open>seat_rest\<close> stands for every field of the seat the route never assigns.
\<close>

record seat =
  bot_seat :: "string list option"
  name :: string
  userid :: "string option"
  drafted :: pool
  sideboard :: pool
  pickorder :: "nat list"
  trashorder :: "nat list"
  seat_rest :: jsval

record draft =
  cube :: string
  seats :: "seat list"
  basics :: jsval
  initial_state :: "jsval list"
  cards :: "jsval list"

text \<open>
  Modelled from the spec: \<^verbatim>\<open>rotateArrayLeft\<close> of \<^verbatim>\<open>./helper\<close> is not among the sources.
  The spec: ``performs a left rotation of the seat array by seatIndex positions: the seat
  that was at seatIndex moves to position 0''. One position at a time, \<open>k\<close> times.
\<close>

primrec rotateArrayLeft :: "'a list \<Rightarrow> nat \<Rightarrow> 'a list" where
  "rotateArrayLeft xs 0 = xs"
| "rotateArrayLeft xs (Suc k) =
     rotateArrayLeft (case xs of [] \<Rightarrow> [] | x # r \<Rightarrow> r @ [x]) k"

text \<open>
  Modelled from the spec: \<^verbatim>\<open>createPool\<close> of \<^verbatim>\<open>./helper\<close> is not among the sources.
  The spec: every seat's drafted pool and sideboard are initialised ``to empty ordered
  sequences''.
\<close>

definition createPool :: pool where
  "createPool = []"

text \<open>The body of the loop over \<^verbatim>\<open>draft.seats\<close>, and the loop.\<close>

definition clear_seat :: "seat \<Rightarrow> seat" where
  "clear_seat s =
     s\<lparr>bot_seat := Some [], drafted := createPool, sideboard := createPool,
       pickorder := [], trashorder := []\<rparr>"

definition clear_seats :: "seat list \<Rightarrow> seat list" where
  "clear_seats ss = fold (\<lambda>i acc. acc[i := clear_seat (acc ! i)]) [0..<length ss] ss"

text \<open>
  The statements between \<^verbatim>\<open>draft.seats = srcDraft.seats.slice()\<close> and \<^verbatim>\<open>draft.save()\<close>
  that build the seats, for a seat number \<open>k\<close> that passed the range check (so the list is
  not empty and both \<open>k\<close> and \<open>0\<close> are indices of it).
\<close>

definition redraft_seats :: "seat list \<Rightarrow> nat \<Rightarrow> user option \<Rightarrow> seat list" where
  "redraft_seats src_seats k req_user =
     (let s1 = rotateArrayLeft src_seats k;
          s2 = s1[k := (s1 ! k)\<lparr>bot_seat := None\<rparr>];
          s3 = clear_seats s2;
          s4 = s3[0 := (s3 ! 0)\<lparr>bot_seat := None\<rparr>];
          s5 = s4[0 := (s4 ! 0)\<lparr>userid := map_option user_id req_user\<rparr>];
          s6 = s5[0 := (s5 ! 0)\<lparr>name := (case req_user of Some u \<Rightarrow> username u
                                               | None \<Rightarrow> ''Anonymous'')\<rparr>]
      in s6)"

definition redraft_draft :: "draft \<Rightarrow> nat \<Rightarrow> user option \<Rightarrow> draft" where
  "redraft_draft srcDraft k req_user =
     \<lparr>cube = cube srcDraft,
      seats = redraft_seats (seats srcDraft) k req_user,
      basics = basics srcDraft,
      initial_state = initial_state srcDraft,
      cards = cards srcDraft\<rparr>"

subsection \<open>The handler\<close>

text \<open>
  The drafts collection maps a document id to its document. \<^verbatim>\<open>Draft.findById(..).lean()\<close>
  reads a detached copy; \<^verbatim>\<open>new Draft()\<close> is a fresh document whose id \<open>new_id\<close> the
  driver mints, and assigning to its paths casts the values into the new document;
  \<^verbatim>\<open>draft.save()\<close> inserts it, and the collection refuses an id it already holds (the
  error reaches the \<^verbatim>\<open>catch\<close>, which hands it to \<^verbatim>\<open>util.handleRouteError\<close>). These are
  the only accesses of the handler to the collection: the source draft is the stored
  document, \<^verbatim>\<open>srcDraft\<close> is a copy of it that lives for the request, and the seats of the
  new document are values of their own. \<open>viewable c u\<close> stands for
  \<^verbatim>\<open>isCubeViewable(await Cube.findById(c), u)\<close>. The response of a successful request
  carries the saved draft (the card details added to the copy that is sent are left out);
  \<open>RouteError\<close> carries the path \<^verbatim>\<open>util.handleRouteError\<close> is given, with the id as it
  was sent. Ids are the strings that address documents of the collection.
\<close>

datatype redraft_response =
    Redirect string
  | SendDraft draft
  | RouteError string

record redraft_result =
  response :: redraft_response
  flash :: "(string \<times> string) list"
  store :: "string \<rightharpoonup> draft"

definition seat_rejected :: "int option \<Rightarrow> nat \<Rightarrow> bool" where
  "seat_rejected seat n =
     (case seat of None \<Rightarrow> True | Some k \<Rightarrow> k < 0 \<or> k \<ge> int n)"

definition redraft ::
  "(string \<Rightarrow> user option \<Rightarrow> bool) \<Rightarrow> user option \<Rightarrow> string \<Rightarrow>
   (string \<rightharpoonup> draft) \<Rightarrow> string \<Rightarrow> string \<Rightarrow> redraft_result" where
  "redraft viewable req_user new_id db id_param seat_param =
     (let seat = parseInt10 seat_param in
      case db id_param of
        None \<Rightarrow>
          \<lparr>response = Redirect (''/cube/deck/'' @ id_param),
           flash = [(''danger'', ''This deck is not able to be redrafted.'')],
           store = db\<rparr>
      | Some srcDraft \<Rightarrow>
          if seat_rejected seat (length (seats srcDraft)) then
            \<lparr>response = Redirect (''/cube/deck/'' @ id_param),
             flash = [(''dange'', ''Did not give a valid seat number to redraft as.'')],
             store = db\<rparr>
          else if \<not> viewable (cube srcDraft) req_user then
            \<lparr>response = Redirect (''/cube/deck/'' @ id_param),
             flash = [(''danger'', ''The cube that this deck belongs to no longer exists.'')],
             store = db\<rparr>
          else
            (let d = redraft_draft srcDraft (nat (the seat)) req_user in
             if db new_id \<noteq> None then
               \<lparr>response = RouteError (''/cube/playtest/'' @ id_param), flash = [], store = db\<rparr>
             else
               \<lparr>response = SendDraft d, flash = [], store = db(new_id \<mapsto> d)\<rparr>))"

section \<open>The featured queue\<close>

record queue_entry =
  cubeID :: string
  ownerID :: string

record featured =
  queue :: "queue_entry list"
  daysBetweenRotations :: int

text \<open>
  Modelled from the spec: \<^verbatim>\<open>updateFeatured\<close> of \<^verbatim>\<open>serverjs/featuredQueue\<close> is not among the
  sources. The spec: ``apply function f to the current queue snapshot, then attempt to
  persist'', ``with rollback on constraint violation'', ``surfacing domain-level
  validation errors''. The callback either throws a message (\<open>Inl\<close>) or returns a value
  with the snapshot as it left it; one request at a time is modelled, so the write of an
  accepted update goes through.
\<close>

datatype 'a update = UpdateFailed string | UpdateOk 'a

definition updateFeatured ::
  "(featured \<Rightarrow> string + ('a \<times> featured)) \<Rightarrow> featured \<Rightarrow> 'a update \<times> featured" where
  "updateFeatured fn stored =
     (case fn stored of
        Inl message \<Rightarrow> (UpdateFailed message, stored)
      | Inr (r, changed) \<Rightarrow> (UpdateOk r, changed))"

text \<open>\<^verbatim>\<open>Array.prototype.findIndex\<close> (\<open>-1\<close> when no element satisfies the test) and
  \<^verbatim>\<open>Array.prototype.splice\<close> for a start and a count that are not negative: the removed
  elements and the array after the call.\<close>

fun findIndex :: "('a \<Rightarrow> bool) \<Rightarrow> 'a list \<Rightarrow> int" where
  "findIndex P [] = - 1"
| "findIndex P (x # xs) =
     (if P x then 0 else (let i = findIndex P xs in if i = - 1 then - 1 else i + 1))"

definition splice :: "'a list \<Rightarrow> nat \<Rightarrow> nat \<Rightarrow> 'a list \<Rightarrow> 'a list \<times> 'a list" where
  "splice xs start deleteCount items =
     (take deleteCount (drop start xs), take start xs @ items @ drop (start + deleteCount) xs)"

text \<open>
  Both handlers answer with a redirect to \<^verbatim>\<open>/admin/featuredcubes\<close>, unless an
  exception leaves them. \<^verbatim>\<open>req.flash(type, message)\<close> adds a message; \<open>notified\<close> lists the
  owners \<^verbatim>\<open>util.addNotification\<close> is called for.
\<close>

datatype admin_reply = RedirectFeatured | Thrown string

record admin_result =
  reply :: admin_reply
  flashes :: "(string \<times> string) list"
  notified :: "string list"
  featured_after :: featured

subsection \<open>\<^verbatim>\<open>/featuredcubes/unqueue\<close>\<close>

definition unqueue_fn :: "string \<Rightarrow> featured \<Rightarrow> string + (queue_entry list \<times> featured)" where
  "unqueue_fn cubeId f =
     (let index = findIndex (\<lambda>c. cubeID c = cubeId) (queue f) in
      if index = - 1 then Inl ''Cube not found in queue''
      else if index < 2 then Inl ''Cannot remove currently featured cube from queue''
      else (case splice (queue f) (nat index) 1 [] of
              (removed, q') \<Rightarrow> Inr (removed, f\<lparr>queue := q'\<rparr>)))"

text \<open>A request without a cube id calls \<^verbatim>\<open>req.flash\<close> with one argument, which adds no
  message.\<close>

definition unqueue :: "string \<Rightarrow> featured \<Rightarrow> admin_result" where
  "unqueue cubeId stored =
     (if cubeId = [] then
        \<lparr>reply = RedirectFeatured, flashes = [], notified = [], featured_after = stored\<rparr>
      else
        (case updateFeatured (unqueue_fn cubeId) stored of
           (UpdateFailed message, f) \<Rightarrow>
             \<lparr>reply = RedirectFeatured, flashes = [(''danger'', message)], notified = [],
              featured_after = f\<rparr>
         | (UpdateOk [], f) \<Rightarrow>
             \<lparr>reply = Thrown ''TypeError'', flashes = [], notified = [], featured_after = f\<rparr>
         | (UpdateOk (removed # _), f) \<Rightarrow>
             \<lparr>reply = RedirectFeatured, flashes = [], notified = [ownerID removed],
              featured_after = f\<rparr>))"

subsection \<open>\<^verbatim>\<open>/featuredcubes/move\<close>\<close>

text \<open>
  The body after the validators: \<^verbatim>\<open>isInt({ gt: 2 }).toInt()\<close> leaves an integer, or fails
  on a field that is no integer (\<open>None\<close>). \<^verbatim>\<open>flashValidationErrors\<close> (of the middleware,
  not among the sources) is taken to flash the message of each validator that failed
  and to clear \<^verbatim>\<open>req.validated\<close>.
\<close>

record move_body =
  move_cubeId :: string
  move_from :: "int option"
  move_to :: "int option"

definition gt2 :: "int option \<Rightarrow> bool" where
  "gt2 v = (case v of None \<Rightarrow> False | Some i \<Rightarrow> 2 < i)"

definition validation_messages :: "move_body \<Rightarrow> string list" where
  "validation_messages b =
     (if move_cubeId b = [] then [''Cube ID must be sent''] else []) @
     (if gt2 (move_from b) then [] else [''Cannot move currently featured cube'']) @
     (if gt2 (move_to b) then [] else [''Cannot move cube to featured position''])"

definition move_fn :: "string \<Rightarrow> int \<Rightarrow> int \<Rightarrow> featured \<Rightarrow> string + (unit \<times> featured)" where
  "move_fn cubeId from_i to_i f =
     (if int (length (queue f)) \<le> from_i \<or> cubeID (queue f ! nat from_i) \<noteq> cubeId then
        Inl ''Cube is not at expected position in queue''
      else if int (length (queue f)) \<le> to_i then
        Inl ''Target position is higher than cube length''
      else (case splice (queue f) (nat from_i) 1 [] of
              (spliced, q1) \<Rightarrow>
                (case splice q1 (nat to_i) 0 (take 1 spliced) of
                   (_, q2) \<Rightarrow> Inr ((), f\<lparr>queue := q2\<rparr>))))"

definition move :: "move_body \<Rightarrow> featured \<Rightarrow> admin_result" where
  "move b stored =
     (if validation_messages b \<noteq> [] then
        \<lparr>reply = RedirectFeatured, flashes = map (Pair ''danger'') (validation_messages b),
         notified = [], featured_after = stored\<rparr>
      else
        (case updateFeatured (move_fn (move_cubeId b) (the (move_from b) - 1) (the (move_to b) - 1)) stored of
           (UpdateFailed message, f) \<Rightarrow>
             \<lparr>reply = RedirectFeatured, flashes = [(''danger'', message)], notified = [],
              featured_after = f\<rparr>
         | (UpdateOk _, f) \<Rightarrow>
             \<lparr>reply = RedirectFeatured, flashes = [(''success'', ''Successfully moved cube'')],
              notified = [], featured_after = f\<rparr>))"

section \<open>Updating the cards of a cube\<close>

text \<open>Property access on an object (\<^verbatim>\<open>undefined\<close> for a missing key and on a value that is
  no object), \<^verbatim>\<open>hasOwnProperty\<close>, assignment to a property, and \<^verbatim>\<open>typeof\<close>.\<close>

type_synonym obj = "(string \<times> jsval) list"

fun getp :: "jsval \<Rightarrow> string \<Rightarrow> jsval" where
  "getp (JObj kvs) k = (case map_of kvs k of Some v \<Rightarrow> v | None \<Rightarrow> JUndefined)"
| "getp v k = JUndefined"

definition hasOwn :: "obj \<Rightarrow> string \<Rightarrow> bool" where
  "hasOwn kvs k \<longleftrightarrow> k \<in> set (map fst kvs)"

fun setp :: "obj \<Rightarrow> string \<Rightarrow> jsval \<Rightarrow> obj" where
  "setp [] k v = [(k, v)]"
| "setp ((k', v') # kvs) k v = (if k' = k then (k, v) # kvs else (k', v') # setp kvs k v)"

fun typeof :: "jsval \<Rightarrow> string" where
  "typeof JUndefined = ''undefined''"
| "typeof JNull = ''object''"
| "typeof (JBool b) = ''boolean''"
| "typeof (JNum n) = ''number''"
| "typeof (JStr s) = ''string''"
| "typeof (JArr xs) = ''object''"
| "typeof (JObj kvs) = ''object''"

definition isArray :: "jsval \<Rightarrow> bool" where
  "isArray v = (case v of JArr xs \<Rightarrow> True | _ \<Rightarrow> False)"

definition isInteger :: "jsval \<Rightarrow> bool" where
  "isInteger v = (case v of JNum r \<Rightarrow> of_int \<lfloor>r\<rfloor> = r | _ \<Rightarrow> False)"

subsection \<open>\<^verbatim>\<open>/updatecard/:id\<close>\<close>

text \<open>
  The body holds \<^verbatim>\<open>src\<close> and \<^verbatim>\<open>updated\<close>; \<^verbatim>\<open>updated\<close> is taken to be an object. The
  first test of the handler, in the order of the source.
\<close>

definition updatecard_invalid :: "jsval \<Rightarrow> obj \<Rightarrow> bool" where
  "updatecard_invalid src updated =
     (let cardID = getp (JObj updated) ''cardID''; cmc = getp (JObj updated) ''cmc'';
          status = getp (JObj updated) ''status''; type_line = getp (JObj updated) ''type_line'';
          colors = getp (JObj updated) ''colors''; tags = getp (JObj updated) ''tags'';
          finish = getp (JObj updated) ''finish''
      in list_ex (\<lambda>b. b)
          [\<not> truthy src,
           truthy src \<and> typeof (getp src ''index'') \<noteq> ''number'',
           truthy cardID \<and> typeof cardID \<noteq> ''string'',
           truthy cmc \<and> (case cmc of JNum r \<Rightarrow> r < 0 \<or> \<not> isInteger (JNum (r * 2)) | _ \<Rightarrow> True),
           truthy status \<and> typeof status \<noteq> ''string'',
           truthy type_line \<and> typeof type_line \<noteq> ''string'',
           truthy colors \<and> \<not> isArray colors,
           truthy tags \<and> \<not> isArray tags,
           truthy finish \<and> typeof finish \<noteq> ''string''])"

text \<open>
  \<^verbatim>\<open>cube.cards[src.index]\<close> for a number: the element when the number is an index of the
  array, \<^verbatim>\<open>undefined\<close> (\<open>None\<close>) for every other number, negative or fractional.
\<close>

definition card_at :: "obj list \<Rightarrow> rat \<Rightarrow> obj option" where
  "card_at cs r =
     (if of_int \<lfloor>r\<rfloor> = r \<and> 0 \<le> r \<and> r < of_nat (length cs) then Some (cs ! nat \<lfloor>r\<rfloor>) else None)"

text \<open>The two loops that complete \<^verbatim>\<open>updated\<close>: the schema's keys missing from it are
  copied from the stored card, then the keys whose value is \<^verbatim>\<open>null\<close> are deleted.\<close>

definition fill_from_card :: "string list \<Rightarrow> obj \<Rightarrow> obj \<Rightarrow> obj" where
  "fill_from_card schema_paths crd updated =
     fold (\<lambda>key u. if hasOwn u key then u else setp u key (getp (JObj crd) key)) schema_paths updated"

definition delete_nulls :: "obj \<Rightarrow> obj" where
  "delete_nulls updated = filter (\<lambda>kv. snd kv \<noteq> JNull) updated"

text \<open>
  The handler, on the stored card list of the cube. \<open>viewable\<close> and \<open>is_owner\<close> are
  the outcomes of \<^verbatim>\<open>isCubeViewable(cube, req.user)\<close> and
  \<^verbatim>\<open>req.user._id.equals(cube.owner)\<close>; \<open>card_type\<close> is
  \<^verbatim>\<open>carddb.cardFromId(id).type\<close>, \<open>cardsAreEquivalent\<close> the function of
  \<^verbatim>\<open>serverjs/cubefn.js\<close> and \<open>schema_paths\<close> the keys of the card schema, all three
  parameters. The card list changes only with \<^verbatim>\<open>cube.save()\<close>. \<open>Threw\<close> is an exception
  that leaves the handler (to \<^verbatim>\<open>util.wrapAsyncApi\<close>).
\<close>

datatype api_response = Status nat string string | Threw string

definition updatecard ::
  "bool \<Rightarrow> bool \<Rightarrow> (jsval \<Rightarrow> jsval) \<Rightarrow> (jsval \<Rightarrow> obj \<Rightarrow> bool) \<Rightarrow> string list \<Rightarrow>
   jsval \<Rightarrow> obj \<Rightarrow> obj list \<Rightarrow> api_response \<times> obj list" where
  "updatecard viewable is_owner card_type cardsAreEquivalent schema_paths src updated cube_cards =
     (if updatecard_invalid src updated then
        (Status 400 ''false'' ''Failed input validation'', cube_cards)
      else if \<not> viewable then (Status 404 ''false'' ''Cube not found'', cube_cards)
      else if \<not> is_owner then (Status 401 ''false'' ''Insufficient permissions'', cube_cards)
      else
        (case getp src ''index'' of
           JNum index \<Rightarrow>
             if index \<ge> of_nat (length cube_cards) then
               (Status 400 ''false'' ''No such card'', cube_cards)
             else
               (case card_at cube_cards index of
                  None \<Rightarrow> (Threw ''TypeError'', cube_cards)
                | Some stored \<Rightarrow>
                    (let crd = (if truthy (getp (JObj stored) ''type_line'') then stored
                                 else setp stored ''type_line'' (card_type (getp (JObj stored) ''cardID'')))
                     in if \<not> cardsAreEquivalent src crd then
                          (Status 400 ''false'' ''Cards not equivalent'', cube_cards)
                        else
                          (Status 200 ''true'' [],
                           cube_cards[nat \<lfloor>index\<rfloor> :=
                             delete_nulls (fill_from_card schema_paths crd updated)])))
         | _ \<Rightarrow> (Threw ''TypeError'', cube_cards)))"

subsection \<open>\<^verbatim>\<open>/updatecards/:id\<close>\<close>

definition updatecards_invalid :: "jsval \<Rightarrow> obj \<Rightarrow> bool" where
  "updatecards_invalid selected updated =
     (let cmc = getp (JObj updated) ''cmc''; status = getp (JObj updated) ''status'';
          type_line = getp (JObj updated) ''type_line''; colors = getp (JObj updated) ''colors'';
          tags = getp (JObj updated) ''tags''
      in list_ex (\<lambda>b. b)
          [truthy cmc \<and> typeof cmc \<noteq> ''number'',
           truthy status \<and> typeof status \<noteq> ''string'',
           truthy type_line \<and> typeof type_line \<noteq> ''string'',
           truthy colors \<and> \<not> isArray colors,
           truthy tags \<and> \<not> isArray tags,
           \<not> isArray selected,
           (case selected of
              JArr xs \<Rightarrow> list_ex (\<lambda>index. \<not> isInteger index \<or>
                                    (case index of JNum r \<Rightarrow> r < 0 | _ \<Rightarrow> False)) xs
            | _ \<Rightarrow> False)])"

text \<open>
  The update document: \<^verbatim>\<open>$set\<close>, and \<^verbatim>\<open>$addToSet\<close> and \<^verbatim>\<open>$pullAll\<close>, which exist once
  a tag update created them. A key \<^verbatim>\<open>cards.${index}.field\<close> is the pair of the index and
  the field.
\<close>

type_synonym path = "nat \<times> string"

record all_updates =
  set_u :: "path \<rightharpoonup> jsval"
  addToSet_u :: "(path \<rightharpoonup> jsval) option"
  pullAll_u :: "(path \<rightharpoonup> jsval) option"

definition wubrg :: "jsval list" where
  "wubrg = map (\<lambda>c. JStr [c]) ''WUBRG''"

text \<open>One statement of the loop body each: the write happens when the field of
  \<^verbatim>\<open>updated\<close> is truthy.\<close>

definition set_when :: "obj \<Rightarrow> string \<Rightarrow> nat \<Rightarrow> string \<Rightarrow> jsval \<Rightarrow> all_updates \<Rightarrow> all_updates" where
  "set_when updated field index target v a =
     (if truthy (getp (JObj updated) field) then a\<lparr>set_u := (set_u a)((index, target) \<mapsto> v)\<rparr> else a)"

definition tags_when :: "obj \<Rightarrow> nat \<Rightarrow> all_updates \<Rightarrow> all_updates" where
  "tags_when updated index a =
     (if truthy (getp (JObj updated) ''tags'') then
        (let a1 = (if truthy (getp (JObj updated) ''addTags'') then
                     a\<lparr>addToSet_u := Some ((case addToSet_u a of None \<Rightarrow> Map.empty | Some m \<Rightarrow> m)
                                            ((index, ''tags'') \<mapsto> getp (JObj updated) ''tags''))\<rparr>
                   else a)
         in if truthy (getp (JObj updated) ''deleteTags'') then
              a1\<lparr>pullAll_u := Some ((case pullAll_u a1 of None \<Rightarrow> Map.empty | Some m \<Rightarrow> m)
                                     ((index, ''tags'') \<mapsto> getp (JObj updated) ''tags''))\<rparr>
            else a1)
      else a)"

definition update_index :: "obj \<Rightarrow> nat \<Rightarrow> all_updates \<Rightarrow> all_updates" where
  "update_index updated index a =
     (let u = JObj updated;
          a1 = set_when updated ''status'' index ''status'' (getp u ''status'') a;
          a2 = set_when updated ''cmc'' index ''cmc'' (getp u ''cmc'') a1;
          a3 = set_when updated ''type_line'' index ''type_line'' (getp u ''type_line'') a2;
          a4 = set_when updated ''colors'' index ''colors''
                 (JArr (filter (\<lambda>color. color \<in> set wubrg)
                          (case getp u ''colors'' of JArr cs \<Rightarrow> cs | _ \<Rightarrow> []))) a3;
          a5 = set_when updated ''colorC'' index ''colors'' (JArr []) a4;
          a6 = set_when updated ''finish'' index ''finish'' (getp u ''finish'') a5
      in tags_when updated index a6)"

definition index_of :: "jsval \<Rightarrow> nat" where
  "index_of v = (case v of JNum r \<Rightarrow> nat \<lfloor>r\<rfloor> | _ \<Rightarrow> 0)"

definition build_updates :: "jsval list \<Rightarrow> obj \<Rightarrow> all_updates" where
  "build_updates selected updated =
     fold (\<lambda>index a. update_index updated (index_of index) a) selected
       \<lparr>set_u = Map.empty, addToSet_u = None, pullAll_u = None\<rparr>"

text \<open>The handler: the response and the document handed to \<^verbatim>\<open>cube.updateOne\<close>, if it
  is reached.\<close>

definition updatecards ::
  "bool \<Rightarrow> bool \<Rightarrow> jsval \<Rightarrow> obj \<Rightarrow> api_response \<times> all_updates option" where
  "updatecards viewable is_owner selected updated =
     (if updatecards_invalid selected updated then
        (Status 400 ''false'' ''Failed input validation'', None)
      else if \<not> viewable then (Status 404 ''false'' ''Cube not found'', None)
      else if \<not> is_owner then (Status 403 ''false'' ''Unauthorized'', None)
      else
        (Status 200 ''true'' [],
         Some (build_updates (case selected of JArr xs \<Rightarrow> xs | _ \<Rightarrow> []) updated)))"

subsection \<open>Two notions the claims about the route use\<close>

text \<open>
  Modelled from the spec: the lifecycle state of a draft is no field that the handler
  reads. The spec: a draft ``becomes immutable (complete) once all seats finish'',
  ``complete state (picks finished)''; the pick order records the picks that were made
  and the trash order the cards seen but not picked. Picks are finished when every card
  of the flattened pool has been picked or trashed by a seat.
\<close>

definition picks_finished :: "draft \<Rightarrow> bool" where
  "picks_finished d \<longleftrightarrow>
     sum_list (map (\<lambda>s. length (pickorder s) + length (trashorder s)) (seats d)) = length (cards d)"

text \<open>A seat parameter that is written as an integer: decimal digits only, after at
  most one sign.\<close>

definition integer_literal :: "string \<Rightarrow> bool" where
  "integer_literal s =
     (case s of
        [] \<Rightarrow> False
      | c # r \<Rightarrow> if c = CHR ''-'' \<or> c = CHR ''+'' then r \<noteq> [] \<and> list_all isDigit r
                 else list_all isDigit s)"

section \<open>Example documents\<close>

text \<open>A finished draft of four seats over four cards, and a draft of two seats over two
  cards in which no pick has been made.\<close>

definition example_seat :: "string \<Rightarrow> nat list \<Rightarrow> seat" where
  "example_seat n picks =
     \<lparr>bot_seat = Some [''W''], name = n, userid = None, drafted = picks, sideboard = [],
      pickorder = picks, trashorder = [], seat_rest = JStr n\<rparr>"

definition example_draft :: draft where
  "example_draft =
     \<lparr>cube = ''c1'',
      seats = [example_seat ''A'' [0], example_seat ''B'' [1], example_seat ''C'' [2],
               example_seat ''D'' [3]],
      basics = JArr [],
      initial_state = [JNum 11, JNum 12, JNum 13, JNum 14],
      cards = [JStr ''w'', JStr ''x'', JStr ''y'', JStr ''z'']\<rparr>"

definition unstarted_draft :: draft where
  "unstarted_draft =
     \<lparr>cube = ''c1'',
      seats = [example_seat ''A'' [], example_seat ''B'' []],
      basics = JArr [],
      initial_state = [JNum 11, JNum 12],
      cards = [JStr ''w'', JStr ''x'']\<rparr>"

text \<open>A cube that every viewer may see.\<close>

definition always_viewable :: "string \<Rightarrow> user option \<Rightarrow> bool" where
  "always_viewable c u = True"

text \<open>A featured queue of four cubes.\<close>

definition example_featured :: featured where
  "example_featured =
     \<lparr>queue = [\<lparr>cubeID = ''a'', ownerID = ''oa''\<rparr>, \<lparr>cubeID = ''b'', ownerID = ''ob''\<rparr>,
               \<lparr>cubeID = ''c'', ownerID = ''oc''\<rparr>, \<lparr>cubeID = ''d'', ownerID = ''od''\<rparr>],
      daysBetweenRotations = 7\<rparr>"

section \<open>Properties of the redraft route\<close>

lemma clear_seats_upto:
  "n \<le> length ss \<Longrightarrow>
   fold (\<lambda>i acc. acc[i := clear_seat (acc ! i)]) [0..<n] ss
     = map clear_seat (take n ss) @ drop n ss"
proof (induction n)
  case 0
  then show ?case by simp
next
  case (Suc n)
  then have n: "n < length ss" by simp
  have "(map clear_seat (take n ss) @ drop n ss)[n := clear_seat ((map clear_seat (take n ss) @ drop n ss) ! n)]
        = map clear_seat (take (Suc n) ss) @ drop (Suc n) ss"
    using n by (simp add: list_update_append nth_append take_Suc_conv_app_nth
        min_def flip: Cons_nth_drop_Suc)
  with Suc show ?case by simp
qed

lemma clear_seats_map: "clear_seats ss = map clear_seat ss"
  by (simp add: clear_seats_def clear_seats_upto)

lemma rotateArrayLeft_rotate: "rotateArrayLeft xs k = rotate k xs"
proof (induction k arbitrary: xs)
  case 0
  show ?case by simp
next
  case (Suc k)
  have "(case xs of [] \<Rightarrow> [] | x # r \<Rightarrow> r @ [x]) = rotate1 xs"
    by (cases xs) simp_all
  with Suc show ?case by (simp add: rotate1_rotate_swap)
qed

lemma rotateArrayLeft_length: "length (rotateArrayLeft xs k) = length xs"
  by (simp add: rotateArrayLeft_rotate)

lemma rotateArrayLeft_nth:
  "i < length xs \<Longrightarrow> rotateArrayLeft xs k ! i = xs ! ((i + k) mod length xs)"
  by (simp add: rotateArrayLeft_rotate nth_rotate add.commute)

lemma rotateArrayLeft_drop_take:
  "k \<le> length xs \<Longrightarrow> rotateArrayLeft xs k = drop k xs @ take k xs"
  by (cases "k = length xs") (simp_all add: rotateArrayLeft_rotate rotate_drop_take)

lemma clear_seat_bot: "clear_seat (s\<lparr>bot_seat := b\<rparr>) = clear_seat s"
  by (simp add: clear_seat_def)

lemma redraft_seats_length: "length (redraft_seats ss k u) = length ss"
  by (simp add: redraft_seats_def Let_def clear_seats_map rotateArrayLeft_length)

lemma redraft_seats_eq:
  assumes "k < length ss"
  shows "redraft_seats ss k u =
     (map clear_seat (rotateArrayLeft ss k))
       [0 := (clear_seat (rotateArrayLeft ss k ! 0))
               \<lparr>bot_seat := None, userid := map_option user_id u,
                name := (case u of Some v \<Rightarrow> username v | None \<Rightarrow> ''Anonymous'')\<rparr>]"
proof -
  let ?r = "rotateArrayLeft ss k"
  from assms have ne: "ss \<noteq> []" by auto
  have len: "k < length ?r" "0 < length ?r"
    using assms ne by (simp_all add: rotateArrayLeft_length)
  have "map clear_seat (?r[k := (?r ! k)\<lparr>bot_seat := None\<rparr>]) = map clear_seat ?r"
    using len by (simp add: map_update clear_seat_bot list_update_same_conv)
  then show ?thesis
    using len by (simp add: redraft_seats_def Let_def clear_seats_map)
qed

lemma redraft_seats_nth:
  assumes "k < length ss" and "i < length ss" and "0 < i"
  shows "redraft_seats ss k u ! i = clear_seat (ss ! ((i + k) mod length ss))"
  using assms by (simp add: redraft_seats_eq rotateArrayLeft_length rotateArrayLeft_nth)

lemma redraft_seats_0:
  assumes "k < length ss"
  shows "redraft_seats ss k u ! 0 =
     (clear_seat (ss ! k))\<lparr>bot_seat := None, userid := map_option user_id u,
                name := (case u of Some v \<Rightarrow> username v | None \<Rightarrow> ''Anonymous'')\<rparr>"
proof -
  from assms have ne: "ss \<noteq> []" by auto
  with assms have "rotateArrayLeft ss k ! 0 = ss ! k"
    by (simp add: rotateArrayLeft_nth)
  with assms ne show ?thesis
    by (simp add: redraft_seats_eq rotateArrayLeft_length)
qed

lemma redraft_accepted:
  assumes "db id_param = Some src" and "parseInt10 seat_param = Some (int k)"
    and "k < length (seats src)" and "viewable (cube src) req_user" and "db new_id = None"
  shows "redraft viewable req_user new_id db id_param seat_param =
     \<lparr>response = SendDraft (redraft_draft src k req_user), flash = [],
      store = db(new_id \<mapsto> redraft_draft src k req_user)\<rparr>"
  using assms by (simp add: redraft_def seat_rejected_def Let_def)

text \<open>
  Claim C2. For every source draft and every valid seat, the draft that redraft sends
  and stores has the card pool and the \<^verbatim>\<open>initial_state\<close> sequence of the source draft:
  the same values in the same order, hence the same length.
\<close>

theorem redraft_preserves_packs:
  assumes "db id_param = Some src" and "parseInt10 seat_param = Some (int k)"
    and "k < length (seats src)" and "viewable (cube src) req_user" and "db new_id = None"
  shows "let r = redraft viewable req_user new_id db id_param seat_param;
             d = redraft_draft src k req_user
         in response r = SendDraft d \<and> store r new_id = Some d
          \<and> cards d = cards src \<and> length (cards d) = length (cards src)
          \<and> initial_state d = initial_state src
          \<and> length (initial_state d) = length (initial_state src)"
  using assms by (simp add: redraft_accepted redraft_draft_def)

theorem redraft_preserves_packs_witness:
  "[''d1'' \<mapsto> example_draft] ''d1'' = Some example_draft
   \<and> parseInt10 ''2'' = Some (int 2)
   \<and> 2 < length (seats example_draft)
   \<and> [''d1'' \<mapsto> example_draft] ''n1'' = None
   \<and> (let r = redraft (\<lambda>c u. True) None ''n1'' [''d1'' \<mapsto> example_draft] ''d1'' ''2'';
           d = redraft_draft example_draft 2 None
       in response r = SendDraft d \<and> store r ''n1'' = Some d
          \<and> cards d = [JStr ''w'', JStr ''x'', JStr ''y'', JStr ''z'']
          \<and> initial_state d = [JNum 11, JNum 12, JNum 13, JNum 14])"
proof -
  have h1: "[''d1'' \<mapsto> example_draft] ''d1'' = Some example_draft" by simp
  have h2: "parseInt10 ''2'' = Some (int 2)"
    by (simp add: parseInt10_def isWhiteSpace_def isDigit_def digitVal_def)
  have h3: "2 < length (seats example_draft)" by (simp add: example_draft_def)
  have h4: "[''d1'' \<mapsto> example_draft] ''n1'' = None" by simp
  have h5: "(\<lambda>c u. True) (cube example_draft) (None :: user option)" by simp
  have c: "cards example_draft = [JStr ''w'', JStr ''x'', JStr ''y'', JStr ''z'']"
    "initial_state example_draft = [JNum 11, JNum 12, JNum 13, JNum 14]"
    by (simp_all add: example_draft_def)
  from redraft_preserves_packs [of "[''d1'' \<mapsto> example_draft]" "''d1''" example_draft "''2''" 2
      "\<lambda>c u. True" None "''n1''", OF h1 h2 h3 h5 h4] h1 h2 h3 h4 c
  show ?thesis by (simp add: Let_def)
qed

text \<open>
  Claim C1. For a source draft with seats \<open>s\<^sub>0, \<dots>, s\<^sub>n\<^sub>-\<^sub>1\<close> and a valid seat \<open>k\<close>, the
  draft that redraft produces has the seats of the source rotated left by \<open>k\<close> (seat
  \<open>i\<close> of the new draft comes from seat \<open>(i + k) mod n\<close> of the source, so the seat that
  was at \<open>k\<close> is first); seat 0 has no bot descriptor and carries the identity of the
  viewer, or \<^verbatim>\<open>null\<close> and the name Anonymous without one; every other seat has a fresh bot
  descriptor and keeps its name and user id; the drafted pool, sideboard, pick order and
  trash order of every seat are empty.
\<close>

theorem redraft_rotates_and_resets:
  assumes "db id_param = Some src" and "parseInt10 seat_param = Some (int k)"
    and "k < length (seats src)" and "viewable (cube src) req_user" and "db new_id = None"
  shows "let r = redraft viewable req_user new_id db id_param seat_param;
             d = redraft_draft src k req_user;
             n = length (seats src)
         in response r = SendDraft d \<and> store r new_id = Some d
          \<and> length (seats d) = n
          \<and> map seat_rest (seats d) = drop k (map seat_rest (seats src)) @ take k (map seat_rest (seats src))
          \<and> (\<forall>i<n. seat_rest (seats d ! i) = seat_rest (seats src ! ((i + k) mod n))
                  \<and> drafted (seats d ! i) = [] \<and> sideboard (seats d ! i) = []
                  \<and> pickorder (seats d ! i) = [] \<and> trashorder (seats d ! i) = [])
          \<and> (\<forall>i<n. 0 < i \<longrightarrow>
                  bot_seat (seats d ! i) = Some []
                  \<and> name (seats d ! i) = name (seats src ! ((i + k) mod n))
                  \<and> userid (seats d ! i) = userid (seats src ! ((i + k) mod n)))
          \<and> bot_seat (seats d ! 0) = None
          \<and> userid (seats d ! 0) = map_option user_id req_user
          \<and> name (seats d ! 0) = (case req_user of Some u \<Rightarrow> username u | None \<Rightarrow> ''Anonymous'')"
proof -
  let ?ss = "seats src"
  let ?d = "redraft_draft src k req_user"
  have sd: "seats ?d = redraft_seats ?ss k req_user"
    by (simp add: redraft_draft_def)
  have k: "k < length ?ss" by (rule assms(3))
  have zero: "redraft_seats ?ss k req_user ! 0 =
     (clear_seat (?ss ! k))\<lparr>bot_seat := None, userid := map_option user_id req_user,
        name := (case req_user of Some v \<Rightarrow> username v | None \<Rightarrow> ''Anonymous'')\<rparr>"
    using k by (rule redraft_seats_0)
  have pos: "redraft_seats ?ss k req_user ! i = clear_seat (?ss ! ((i + k) mod length ?ss))"
    if "i < length ?ss" "0 < i" for i
    using k that by (rule redraft_seats_nth)
  have rest: "seat_rest (redraft_seats ?ss k req_user ! i) = seat_rest (?ss ! ((i + k) mod length ?ss))
      \<and> drafted (redraft_seats ?ss k req_user ! i) = [] \<and> sideboard (redraft_seats ?ss k req_user ! i) = []
      \<and> pickorder (redraft_seats ?ss k req_user ! i) = [] \<and> trashorder (redraft_seats ?ss k req_user ! i) = []"
    if "i < length ?ss" for i
  proof (cases "i = 0")
    case True
    with k show ?thesis by (simp add: zero clear_seat_def createPool_def)
  next
    case False
    with that show ?thesis by (simp add: pos clear_seat_def createPool_def)
  qed
  have rot: "map seat_rest (redraft_seats ?ss k req_user) = drop k (map seat_rest ?ss) @ take k (map seat_rest ?ss)"
  proof (rule nth_equalityI)
    show "length (map seat_rest (redraft_seats ?ss k req_user)) = length (drop k (map seat_rest ?ss) @ take k (map seat_rest ?ss))"
      using k by (simp add: redraft_seats_length)
  next
    fix i assume "i < length (map seat_rest (redraft_seats ?ss k req_user))"
    then have i: "i < length ?ss" by (simp add: redraft_seats_length)
    have "(drop k (map seat_rest ?ss) @ take k (map seat_rest ?ss)) ! i
            = rotateArrayLeft (map seat_rest ?ss) k ! i"
      using k by (simp add: rotateArrayLeft_drop_take)
    also have "\<dots> = seat_rest (?ss ! ((i + k) mod length ?ss))"
    proof -
      from i have "0 < length ?ss" by linarith
      then have "(i + k) mod length ?ss < length ?ss" by (rule mod_less_divisor)
      with i show ?thesis by (simp add: rotateArrayLeft_nth)
    qed
    finally show "map seat_rest (redraft_seats ?ss k req_user) ! i
       = (drop k (map seat_rest ?ss) @ take k (map seat_rest ?ss)) ! i"
      using i rest [OF i] by (simp add: redraft_seats_length)
  qed
  have others: "bot_seat (redraft_seats ?ss k req_user ! i) = Some []
      \<and> name (redraft_seats ?ss k req_user ! i) = name (?ss ! ((i + k) mod length ?ss))
      \<and> userid (redraft_seats ?ss k req_user ! i) = userid (?ss ! ((i + k) mod length ?ss))"
    if "i < length ?ss" "0 < i" for i
    using that by (simp add: pos clear_seat_def)
  have acc: "redraft viewable req_user new_id db id_param seat_param =
     \<lparr>response = SendDraft ?d, flash = [], store = db(new_id \<mapsto> ?d)\<rparr>"
    using assms by (rule redraft_accepted)
  show ?thesis
    unfolding Let_def acc sd
    using rest others rot by (simp add: zero redraft_seats_length)
qed

theorem redraft_rotates_and_resets_witness:
  "[''d1'' \<mapsto> example_draft] ''d1'' = Some example_draft
   \<and> parseInt10 ''2'' = Some (int 2)
   \<and> 2 < length (seats example_draft)
   \<and> [''d1'' \<mapsto> example_draft] ''n1'' = None
   \<and> (let r = redraft (\<lambda>c u. True) (Some \<lparr>user_id = ''u9'', username = ''viewer''\<rparr>) ''n1''
                 [''d1'' \<mapsto> example_draft] ''d1'' ''2'';
           d = redraft_draft example_draft 2 (Some \<lparr>user_id = ''u9'', username = ''viewer''\<rparr>)
       in response r = SendDraft d \<and> store r ''n1'' = Some d
          \<and> map seat_rest (seats d) = [JStr ''C'', JStr ''D'', JStr ''A'', JStr ''B'']
          \<and> bot_seat (seats d ! 0) = None
          \<and> userid (seats d ! 0) = Some ''u9''
          \<and> name (seats d ! 0) = ''viewer''
          \<and> bot_seat (seats d ! 1) = Some [] \<and> name (seats d ! 1) = ''D''
          \<and> pickorder (seats d ! 1) = [] \<and> drafted (seats d ! 1) = [])"
proof -
  let ?u = "Some \<lparr>user_id = ''u9'', username = ''viewer''\<rparr>"
  have h1: "[''d1'' \<mapsto> example_draft] ''d1'' = Some example_draft" by simp
  have h2: "parseInt10 ''2'' = Some (int 2)"
    by (simp add: parseInt10_def isWhiteSpace_def isDigit_def digitVal_def)
  have h3: "2 < length (seats example_draft)" by (simp add: example_draft_def)
  have h4: "[''d1'' \<mapsto> example_draft] ''n1'' = None" by simp
  have h5: "(\<lambda>c u. True) (cube example_draft) ?u" by simp
  have s: "seats example_draft = [example_seat ''A'' [0], example_seat ''B'' [1],
             example_seat ''C'' [2], example_seat ''D'' [3]]"
    by (simp add: example_draft_def)
  note t = redraft_rotates_and_resets [of "[''d1'' \<mapsto> example_draft]" "''d1''" example_draft
      "''2''" 2 "\<lambda>c u. True" ?u "''n1''", OF h1 h2 h3 h5 h4, unfolded Let_def]
  from t have one: "bot_seat (seats (redraft_draft example_draft 2 ?u) ! 1) = Some []
      \<and> name (seats (redraft_draft example_draft 2 ?u) ! 1) = ''D''
      \<and> pickorder (seats (redraft_draft example_draft 2 ?u) ! 1) = []
      \<and> drafted (seats (redraft_draft example_draft 2 ?u) ! 1) = []"
    by (simp add: s example_seat_def)
  from t h1 h2 h3 h4 one show ?thesis
    by (simp add: Let_def s example_seat_def)
qed

lemma redraft_store_cases:
  "store (redraft viewable req_user new_id db id_param seat_param) = db
   \<or> (db new_id = None
      \<and> (\<exists>d. response (redraft viewable req_user new_id db id_param seat_param) = SendDraft d
             \<and> store (redraft viewable req_user new_id db id_param seat_param) = db(new_id \<mapsto> d)))"
  by (simp add: redraft_def Let_def split: option.split)

text \<open>
  Claim C6. Redraft produces a new draft document and leaves the source draft as it
  was: after the call the collection holds under the id of the source the same document,
  with the same bot descriptor, drafted pool, sideboard, pick order and trash order in
  every seat; no document but the one under the new id differs; and for a valid seat
  the new document is stored under an id other than the source's.
\<close>

theorem redraft_source_untouched:
  assumes "db id_param = Some src"
  shows "let r = redraft viewable req_user new_id db id_param seat_param in
           store r id_param = Some src
         \<and> map bot_seat (seats (the (store r id_param))) = map bot_seat (seats src)
         \<and> map drafted (seats (the (store r id_param))) = map drafted (seats src)
         \<and> map sideboard (seats (the (store r id_param))) = map sideboard (seats src)
         \<and> map pickorder (seats (the (store r id_param))) = map pickorder (seats src)
         \<and> map trashorder (seats (the (store r id_param))) = map trashorder (seats src)
         \<and> (\<forall>i. i \<noteq> new_id \<longrightarrow> store r i = db i)
         \<and> (\<forall>i d. db i = Some d \<longrightarrow> store r i = Some d)
         \<and> (\<forall>k. parseInt10 seat_param = Some (int k) \<and> k < length (seats src)
                  \<and> viewable (cube src) req_user \<and> db new_id = None \<longrightarrow>
                new_id \<noteq> id_param
                \<and> response r = SendDraft (redraft_draft src k req_user)
                \<and> store r new_id = Some (redraft_draft src k req_user))"
proof -
  let ?r = "redraft viewable req_user new_id db id_param seat_param"
  have keep: "store ?r i = Some d" if "db i = Some d" for i d
    using redraft_store_cases [of viewable req_user new_id db id_param seat_param] that
    by auto
  have frame: "store ?r i = db i" if "i \<noteq> new_id" for i
    using redraft_store_cases [of viewable req_user new_id db id_param seat_param] that
    by auto
  have new: "new_id \<noteq> id_param \<and> response ?r = SendDraft (redraft_draft src k req_user)
      \<and> store ?r new_id = Some (redraft_draft src k req_user)"
    if "parseInt10 seat_param = Some (int k)" "k < length (seats src)"
      "viewable (cube src) req_user" "db new_id = None" for k
    using assms that by (auto simp add: redraft_accepted)
  from keep [OF assms] have src: "store ?r id_param = Some src" .
  show ?thesis
    unfolding Let_def using src keep frame new by simp
qed

theorem redraft_source_untouched_witness:
  "[''d1'' \<mapsto> example_draft] ''d1'' = Some example_draft
   \<and> (let r = redraft (\<lambda>c u. True) None ''n1'' [''d1'' \<mapsto> example_draft] ''d1'' ''2'' in
        store r ''d1'' = Some example_draft
      \<and> map bot_seat (seats (the (store r ''d1''))) = [Some [''W''], Some [''W''], Some [''W''], Some [''W'']]
      \<and> map pickorder (seats (the (store r ''d1''))) = [[0], [1], [2], [3]]
      \<and> response r = SendDraft (redraft_draft example_draft 2 None)
      \<and> store r ''n1'' = Some (redraft_draft example_draft 2 None))"
proof -
  have h1: "[''d1'' \<mapsto> example_draft] ''d1'' = Some example_draft" by simp
  have h2: "parseInt10 ''2'' = Some (int 2)"
    by (simp add: parseInt10_def isWhiteSpace_def isDigit_def digitVal_def)
  have h3: "2 < length (seats example_draft)" by (simp add: example_draft_def)
  have h4: "[''d1'' \<mapsto> example_draft] ''n1'' = None" by simp
  have s: "seats example_draft = [example_seat ''A'' [0], example_seat ''B'' [1],
             example_seat ''C'' [2], example_seat ''D'' [3]]"
    by (simp add: example_draft_def)
  note t = redraft_source_untouched [of "[''d1'' \<mapsto> example_draft]" "''d1''" example_draft
      "\<lambda>c u. True" None "''n1''" "''2''", OF h1, unfolded Let_def]
  from t h2 h3 h4 have new: "response (redraft (\<lambda>c u. True) None ''n1'' [''d1'' \<mapsto> example_draft] ''d1'' ''2'')
        = SendDraft (redraft_draft example_draft 2 None)
     \<and> store (redraft (\<lambda>c u. True) None ''n1'' [''d1'' \<mapsto> example_draft] ''d1'' ''2'') ''n1''
        = Some (redraft_draft example_draft 2 None)"
    by blast
  from t have old: "store (redraft (\<lambda>c u. True) None ''n1'' [''d1'' \<mapsto> example_draft] ''d1'' ''2'') ''d1''
        = Some example_draft"
    by blast
  from old new h1 show ?thesis
    by (simp add: Let_def s example_seat_def)
qed

lemma clear_seat_cong:
  "name s = name s' \<Longrightarrow> userid s = userid s' \<Longrightarrow> seat_rest s = seat_rest s'
   \<Longrightarrow> clear_seat s = clear_seat s'"
  by (cases s, cases s') (simp add: clear_seat_def)

lemma redraft_seats_progress:
  assumes k: "k < length ss" and len: "length ss' = length ss"
    and same: "\<And>i. i < length ss \<Longrightarrow> name (ss' ! i) = name (ss ! i)
        \<and> userid (ss' ! i) = userid (ss ! i) \<and> seat_rest (ss' ! i) = seat_rest (ss ! i)"
  shows "redraft_seats ss' k u = redraft_seats ss k u"
proof (rule nth_equalityI)
  show "length (redraft_seats ss' k u) = length (redraft_seats ss k u)"
    by (simp add: redraft_seats_length len)
next
  fix i assume "i < length (redraft_seats ss' k u)"
  then have i: "i < length ss" by (simp add: redraft_seats_length len)
  then have pos: "0 < length ss" by linarith
  have m: "(i + k) mod length ss < length ss" using pos by (rule mod_less_divisor)
  show "redraft_seats ss' k u ! i = redraft_seats ss k u ! i"
  proof (cases "i = 0")
    case True
    have "clear_seat (ss' ! k) = clear_seat (ss ! k)"
      using same [OF k] by (intro clear_seat_cong) simp_all
    with True k len show ?thesis by (simp add: redraft_seats_0)
  next
    case False
    have "clear_seat (ss' ! ((i + k) mod length ss)) = clear_seat (ss ! ((i + k) mod length ss))"
      using same [OF m] by (intro clear_seat_cong) simp_all
    with False i k len show ?thesis by (simp add: redraft_seats_nth)
  qed
qed

text \<open>
  The handler has no test of the lifecycle state of the source draft. A draft in which
  no pick has been made is accepted: the statement of claim C4, that a source draft
  whose picks are not finished is rejected and no draft is created, fails for it.
\<close>

theorem redraft_accepts_unstarted_draft:
  "\<not> picks_finished unstarted_draft
   \<and> map pickorder (seats unstarted_draft) = [[], []]
   \<and> map trashorder (seats unstarted_draft) = [[], []]
   \<and> length (cards unstarted_draft) = 2
   \<and> response (redraft always_viewable None ''n1'' [''d1'' \<mapsto> unstarted_draft] ''d1'' ''0'')
       = SendDraft (redraft_draft unstarted_draft 0 None)
   \<and> store (redraft always_viewable None ''n1'' [''d1'' \<mapsto> unstarted_draft] ''d1'' ''0'') ''n1''
       = Some (redraft_draft unstarted_draft 0 None)"
proof -
  have p: "parseInt10 ''0'' = Some (int 0)"
    by (simp add: parseInt10_def isWhiteSpace_def isDigit_def digitVal_def)
  have a: "redraft always_viewable None ''n1'' [''d1'' \<mapsto> unstarted_draft] ''d1'' ''0''
      = \<lparr>response = SendDraft (redraft_draft unstarted_draft 0 None), flash = [],
         store = [''d1'' \<mapsto> unstarted_draft](''n1'' \<mapsto> redraft_draft unstarted_draft 0 None)\<rparr>"
    by (rule redraft_accepted [OF _ p]) (simp_all add: unstarted_draft_def always_viewable_def)
  show ?thesis
    unfolding a by (simp add: picks_finished_def unstarted_draft_def example_seat_def)
qed

text \<open>
  Claim C4, as the code has it. Redraft does not look at the state of the picks: a
  source draft that exists is accepted whenever the seat is valid, the cube is viewable
  and the new id is free, and the response and the stored new draft are the same when
  the bot descriptor, drafted pool, sideboard, pick order and trash order of the source
  seats are replaced by any others.
\<close>

theorem redraft_ignores_progress:
  assumes "db id_param = Some src" and "parseInt10 seat_param = Some (int k)"
    and "k < length (seats src)" and "viewable (cube src) req_user" and "db new_id = None"
    and "length ss' = length (seats src)"
    and "\<forall>i<length (seats src). name (ss' ! i) = name (seats src ! i)
          \<and> userid (ss' ! i) = userid (seats src ! i)
          \<and> seat_rest (ss' ! i) = seat_rest (seats src ! i)"
  shows "let r = redraft viewable req_user new_id db id_param seat_param;
             r' = redraft viewable req_user new_id (db(id_param \<mapsto> src\<lparr>seats := ss'\<rparr>)) id_param seat_param
         in response r = SendDraft (redraft_draft src k req_user)
          \<and> store r new_id = Some (redraft_draft src k req_user)
          \<and> response r' = response r
          \<and> store r' new_id = store r new_id"
proof -
  let ?src' = "src\<lparr>seats := ss'\<rparr>"
  let ?db' = "db(id_param \<mapsto> ?src')"
  have ne: "new_id \<noteq> id_param" using assms(1,5) by auto
  have "redraft_seats ss' k req_user = redraft_seats (seats src) k req_user"
    using assms(3,6,7) by (intro redraft_seats_progress) simp_all
  then have eq: "redraft_draft ?src' k req_user = redraft_draft src k req_user"
    by (simp add: redraft_draft_def)
  have a: "redraft viewable req_user new_id db id_param seat_param =
     \<lparr>response = SendDraft (redraft_draft src k req_user), flash = [],
      store = db(new_id \<mapsto> redraft_draft src k req_user)\<rparr>"
    using assms(1-5) by (rule redraft_accepted)
  have b: "redraft viewable req_user new_id ?db' id_param seat_param =
     \<lparr>response = SendDraft (redraft_draft ?src' k req_user), flash = [],
      store = ?db'(new_id \<mapsto> redraft_draft ?src' k req_user)\<rparr>"
    using assms ne
    by (intro redraft_accepted [of ?db' id_param ?src' seat_param k viewable req_user new_id]) simp_all
  show ?thesis
    unfolding Let_def a b eq by simp
qed

theorem redraft_ignores_progress_witness:
  "[''d1'' \<mapsto> example_draft] ''d1'' = Some example_draft
   \<and> parseInt10 ''2'' = Some (int 2)
   \<and> 2 < length (seats example_draft)
   \<and> [''d1'' \<mapsto> example_draft] ''n1'' = None
   \<and> (let unpicked = [example_seat ''A'' [], example_seat ''B'' [], example_seat ''C'' [],
                       example_seat ''D'' []];
           r = redraft (\<lambda>c u. True) None ''n1'' [''d1'' \<mapsto> example_draft] ''d1'' ''2'';
           r' = redraft (\<lambda>c u. True) None ''n1''
                  [''d1'' \<mapsto> example_draft\<lparr>seats := unpicked\<rparr>] ''d1'' ''2''
       in picks_finished example_draft
        \<and> \<not> picks_finished (example_draft\<lparr>seats := unpicked\<rparr>)
        \<and> response r = SendDraft (redraft_draft example_draft 2 None)
        \<and> response r' = response r
        \<and> store r' ''n1'' = store r ''n1'')"
proof -
  let ?un = "[example_seat ''A'' [], example_seat ''B'' [], example_seat ''C'' [],
              example_seat ''D'' []]"
  have h1: "[''d1'' \<mapsto> example_draft] ''d1'' = Some example_draft" by simp
  have h2: "parseInt10 ''2'' = Some (int 2)"
    by (simp add: parseInt10_def isWhiteSpace_def isDigit_def digitVal_def)
  have h3: "2 < length (seats example_draft)" by (simp add: example_draft_def)
  have h4: "[''d1'' \<mapsto> example_draft] ''n1'' = None" by simp
  have h5: "(\<lambda>c u. True) (cube example_draft) (None :: user option)" by simp
  have h6: "length ?un = length (seats example_draft)" by (simp add: example_draft_def)
  have h7: "\<forall>i<length (seats example_draft). name (?un ! i) = name (seats example_draft ! i)
          \<and> userid (?un ! i) = userid (seats example_draft ! i)
          \<and> seat_rest (?un ! i) = seat_rest (seats example_draft ! i)"
    by (simp add: example_draft_def example_seat_def All_less_Suc numeral_eq_Suc)
  have fin: "picks_finished example_draft" "\<not> picks_finished (example_draft\<lparr>seats := ?un\<rparr>)"
    by (simp_all add: picks_finished_def example_draft_def example_seat_def)
  note t = redraft_ignores_progress [of "[''d1'' \<mapsto> example_draft]" "''d1''" example_draft
      "''2''" 2 "\<lambda>c u. True" None "''n1''" ?un, OF h1 h2 h3 h5 h4 h6 h7, unfolded Let_def]
  from t h1 h2 h3 h4 fin show ?thesis
    by (simp add: Let_def)
qed

lemma redraft_rejected:
  assumes "db id_param = Some src" and "seat_rejected (parseInt10 seat_param) (length (seats src))"
  shows "redraft viewable req_user new_id db id_param seat_param =
     \<lparr>response = Redirect (''/cube/deck/'' @ id_param),
      flash = [(''dange'', ''Did not give a valid seat number to redraft as.'')],
      store = db\<rparr>"
  using assms by (simp add: redraft_def Let_def)

lemma redraft_passed:
  assumes "db id_param = Some src" and "parseInt10 seat_param = Some (int k)"
    and "k < length (seats src)"
  shows "redraft viewable req_user new_id db id_param seat_param =
     (if \<not> viewable (cube src) req_user then
        \<lparr>response = Redirect (''/cube/deck/'' @ id_param),
         flash = [(''danger'', ''The cube that this deck belongs to no longer exists.'')],
         store = db\<rparr>
      else if db new_id \<noteq> None then
        \<lparr>response = RouteError (''/cube/playtest/'' @ id_param), flash = [], store = db\<rparr>
      else
        \<lparr>response = SendDraft (redraft_draft src k req_user), flash = [],
         store = db(new_id \<mapsto> redraft_draft src k req_user)\<rparr>)"
  using assms by (simp add: redraft_def Let_def seat_rejected_def)

text \<open>
  The seat parameter is read with \<^verbatim>\<open>parseInt\<close>, which stops at the first character that
  is no digit. The parameter \<^verbatim>\<open>1.5\<close> is no integer, and the handler redrafts from seat 1:
  the statement of claim C5, that every seat parameter that is not an integer of the
  range is answered with a validation failure and no new draft, fails for it.
\<close>

theorem redraft_accepts_fractional_seat:
  "\<not> integer_literal ''1.5''
   \<and> response (redraft always_viewable None ''n1'' [''d1'' \<mapsto> unstarted_draft] ''d1'' ''1.5'')
       = SendDraft (redraft_draft unstarted_draft 1 None)
   \<and> store (redraft always_viewable None ''n1'' [''d1'' \<mapsto> unstarted_draft] ''d1'' ''1.5'') ''n1''
       = Some (redraft_draft unstarted_draft 1 None)"
proof -
  have p: "parseInt10 ''1.5'' = Some (int 1)"
    by (simp add: parseInt10_def isWhiteSpace_def isDigit_def digitVal_def)
  have a: "redraft always_viewable None ''n1'' [''d1'' \<mapsto> unstarted_draft] ''d1'' ''1.5''
      = \<lparr>response = SendDraft (redraft_draft unstarted_draft 1 None), flash = [],
         store = [''d1'' \<mapsto> unstarted_draft](''n1'' \<mapsto> redraft_draft unstarted_draft 1 None)\<rparr>"
    by (rule redraft_accepted [OF _ p]) (simp_all add: unstarted_draft_def always_viewable_def)
  show ?thesis
    unfolding a by (simp add: integer_literal_def isDigit_def)
qed

text \<open>
  Claim C5, as the code has it. For a source draft that exists: a seat parameter whose
  \<^verbatim>\<open>parseInt\<close> value is NaN, negative or not below the number of seats is answered with
  a redirect to the deck page and the message that no valid seat number was given, and
  the collection is unchanged; a parameter whose value is an index of the seats passes
  this validation, and with a viewable cube and a free id the draft is created.
\<close>

theorem redraft_seat_validation:
  assumes "db id_param = Some src"
  shows "let r = redraft viewable req_user new_id db id_param seat_param;
             n = length (seats src)
         in ((parseInt10 seat_param = None
               \<or> (\<exists>k. parseInt10 seat_param = Some k \<and> (k < 0 \<or> int n \<le> k)))
              \<longrightarrow> response r = Redirect (''/cube/deck/'' @ id_param)
                \<and> map snd (flash r) = [''Did not give a valid seat number to redraft as.'']
                \<and> store r = db)
          \<and> (\<forall>k. parseInt10 seat_param = Some (int k) \<and> k < n
              \<longrightarrow> map snd (flash r) \<noteq> [''Did not give a valid seat number to redraft as.'']
                \<and> (viewable (cube src) req_user \<and> db new_id = None
                     \<longrightarrow> response r = SendDraft (redraft_draft src k req_user)
                       \<and> store r = db(new_id \<mapsto> redraft_draft src k req_user)))"
proof -
  let ?r = "redraft viewable req_user new_id db id_param seat_param"
  have rej: "response ?r = Redirect (''/cube/deck/'' @ id_param)
      \<and> map snd (flash ?r) = [''Did not give a valid seat number to redraft as.'']
      \<and> store ?r = db"
    if "parseInt10 seat_param = None
        \<or> (\<exists>k. parseInt10 seat_param = Some k \<and> (k < 0 \<or> int (length (seats src)) \<le> k))"
  proof -
    from that have "seat_rejected (parseInt10 seat_param) (length (seats src))"
      by (auto simp add: seat_rejected_def)
    with assms have "?r = \<lparr>response = Redirect (''/cube/deck/'' @ id_param),
      flash = [(''dange'', ''Did not give a valid seat number to redraft as.'')],
      store = db\<rparr>"
      by (rule redraft_rejected [where db = db and id_param = id_param])
    then show ?thesis by simp
  qed
  have pass: "map snd (flash ?r) \<noteq> [''Did not give a valid seat number to redraft as.'']
      \<and> (viewable (cube src) req_user \<and> db new_id = None
           \<longrightarrow> response ?r = SendDraft (redraft_draft src k req_user)
             \<and> store ?r = db(new_id \<mapsto> redraft_draft src k req_user))"
    if "parseInt10 seat_param = Some (int k) \<and> k < length (seats src)" for k
  proof -
    from that have p: "parseInt10 seat_param = Some (int k)" and k: "k < length (seats src)"
      by simp_all
    note eq = redraft_passed [where db = db and id_param = id_param and viewable = viewable
        and req_user = req_user and new_id = new_id, OF assms p k]
    show ?thesis
    proof (cases "viewable (cube src) req_user")
      case False
      with eq show ?thesis by simp
    next
      case True
      show ?thesis
      proof (cases "db new_id")
        case None
        with eq True show ?thesis by simp
      next
        case (Some d)
        with eq True show ?thesis by simp
      qed
    qed
  qed
  show ?thesis
    unfolding Let_def
  proof (intro conjI impI allI)
    assume "parseInt10 seat_param = None
        \<or> (\<exists>k. parseInt10 seat_param = Some k \<and> (k < 0 \<or> int (length (seats src)) \<le> k))"
    from rej [OF this]
    show "response ?r = Redirect (''/cube/deck/'' @ id_param)"
      and "map snd (flash ?r) = [''Did not give a valid seat number to redraft as.'']"
      and "store ?r = db"
      by simp_all
  next
    fix k assume "parseInt10 seat_param = Some (int k) \<and> k < length (seats src)"
    from pass [OF this]
    show "map snd (flash ?r) \<noteq> [''Did not give a valid seat number to redraft as.'']"
      by (rule conjunct1)
  next
    fix k assume a: "parseInt10 seat_param = Some (int k) \<and> k < length (seats src)"
      and b: "viewable (cube src) req_user \<and> db new_id = None"
    from pass [OF a] b
    show "response ?r = SendDraft (redraft_draft src k req_user)"
      and "store ?r = db(new_id \<mapsto> redraft_draft src k req_user)"
      by blast+
  qed
qed

theorem redraft_seat_validation_witness:
  "[''d1'' \<mapsto> example_draft] ''d1'' = Some example_draft
   \<and> parseInt10 ''4'' = Some 4 \<and> parseInt10 ''-1'' = Some (- 1) \<and> parseInt10 ''two'' = None
   \<and> parseInt10 ''3'' = Some 3 \<and> length (seats example_draft) = 4
   \<and> response (redraft (\<lambda>c u. True) None ''n1'' [''d1'' \<mapsto> example_draft] ''d1'' ''4'')
        = Redirect ''/cube/deck/d1''
   \<and> store (redraft (\<lambda>c u. True) None ''n1'' [''d1'' \<mapsto> example_draft] ''d1'' ''4'')
        = [''d1'' \<mapsto> example_draft]
   \<and> response (redraft (\<lambda>c u. True) None ''n1'' [''d1'' \<mapsto> example_draft] ''d1'' ''-1'')
        = Redirect ''/cube/deck/d1''
   \<and> response (redraft (\<lambda>c u. True) None ''n1'' [''d1'' \<mapsto> example_draft] ''d1'' ''two'')
        = Redirect ''/cube/deck/d1''
   \<and> response (redraft (\<lambda>c u. True) None ''n1'' [''d1'' \<mapsto> example_draft] ''d1'' ''3'')
        = SendDraft (redraft_draft example_draft 3 None)"
proof -
  let ?db = "[''d1'' \<mapsto> example_draft]"
  have h1: "?db ''d1'' = Some example_draft" by simp
  have p: "parseInt10 ''4'' = Some 4" "parseInt10 ''-1'' = Some (- 1)" "parseInt10 ''two'' = None"
      "parseInt10 ''3'' = Some (int 3)"
    by (simp_all add: parseInt10_def isWhiteSpace_def isDigit_def digitVal_def)
  have n: "length (seats example_draft) = 4" by (simp add: example_draft_def)
  have fresh: "?db ''n1'' = None" by simp
  note t = redraft_seat_validation [of ?db "''d1''" example_draft "\<lambda>c u. True" None "''n1''",
      OF h1, unfolded Let_def n]
  from t [of "''4''"] p(1) have a: "response (redraft (\<lambda>c u. True) None ''n1'' ?db ''d1'' ''4'')
        = Redirect ''/cube/deck/d1''
      \<and> store (redraft (\<lambda>c u. True) None ''n1'' ?db ''d1'' ''4'') = ?db"
    by simp
  from t [of "''-1''"] p(2) have b: "response (redraft (\<lambda>c u. True) None ''n1'' ?db ''d1'' ''-1'')
        = Redirect ''/cube/deck/d1''"
    by simp
  from t [of "''two''"] p(3) have c: "response (redraft (\<lambda>c u. True) None ''n1'' ?db ''d1'' ''two'')
        = Redirect ''/cube/deck/d1''"
    by simp
  from t [of "''3''"] p(4) fresh have d: "response (redraft (\<lambda>c u. True) None ''n1'' ?db ''d1'' ''3'')
        = SendDraft (redraft_draft example_draft 3 None)"
    by simp
  from a b c d h1 p n show ?thesis by simp
qed

section \<open>Properties of the featured queue\<close>

lemma findIndex_bounds: "- 1 \<le> findIndex P xs \<and> findIndex P xs < int (length xs)"
  by (induction xs) (auto simp add: Let_def)

lemma findIndex_first:
  "p < length xs \<Longrightarrow> P (xs ! p) \<Longrightarrow> (\<And>j. j < p \<Longrightarrow> \<not> P (xs ! j)) \<Longrightarrow> findIndex P xs = int p"
proof (induction xs arbitrary: p)
  case Nil
  then show ?case by simp
next
  case (Cons x xs)
  show ?case
  proof (cases p)
    case 0
    with Cons.prems show ?thesis by simp
  next
    case (Suc q)
    from Cons.prems(3) [of 0] Suc have nx: "\<not> P x" by simp
    have "findIndex P xs = int q"
    proof (rule Cons.IH)
      show "q < length xs" using Cons.prems(1) Suc by simp
      show "P (xs ! q)" using Cons.prems(2) Suc by simp
      show "\<not> P (xs ! j)" if "j < q" for j
        using Cons.prems(3) [of "Suc j"] that Suc by simp
    qed
    with nx Suc show ?thesis by (simp add: Let_def)
  qed
qed

lemma findIndex_le:
  "p < length xs \<Longrightarrow> P (xs ! p) \<Longrightarrow> 0 \<le> findIndex P xs \<and> findIndex P xs \<le> int p"
proof (induction xs arbitrary: p)
  case Nil
  then show ?case by simp
next
  case (Cons x xs)
  show ?case
  proof (cases "P x")
    case True
    then show ?thesis by simp
  next
    case False
    with Cons.prems obtain q where q: "p = Suc q" by (cases p) auto
    with Cons.prems have "0 \<le> findIndex P xs \<and> findIndex P xs \<le> int q"
      by (intro Cons.IH) simp_all
    with False q show ?thesis by (simp add: Let_def)
  qed
qed

lemma unqueue_featured:
  assumes "cubeId \<noteq> []" and "p < length (queue f)" and "cubeID (queue f ! p) = cubeId" and "p < 2"
  shows "unqueue cubeId f =
     \<lparr>reply = RedirectFeatured,
      flashes = [(''danger'', ''Cannot remove currently featured cube from queue'')],
      notified = [], featured_after = f\<rparr>"
proof -
  from findIndex_le [of p "queue f" "\<lambda>c. cubeID c = cubeId"] assms
  have "0 \<le> findIndex (\<lambda>c. cubeID c = cubeId) (queue f)"
    and "findIndex (\<lambda>c. cubeID c = cubeId) (queue f) < 2"
    by simp_all
  then have "unqueue_fn cubeId f = Inl ''Cannot remove currently featured cube from queue''"
    by (simp add: unqueue_fn_def Let_def)
  with assms(1) show ?thesis
    by (simp add: unqueue_def updateFeatured_def)
qed

lemma unqueue_later:
  assumes "cubeId \<noteq> []" and "p < length (queue f)" and "cubeID (queue f ! p) = cubeId"
    and "\<And>j. j < p \<Longrightarrow> cubeID (queue f ! j) \<noteq> cubeId" and "2 \<le> p"
  shows "unqueue cubeId f =
     \<lparr>reply = RedirectFeatured, flashes = [], notified = [ownerID (queue f ! p)],
      featured_after = f\<lparr>queue := take p (queue f) @ drop (Suc p) (queue f)\<rparr>\<rparr>"
proof -
  have "findIndex (\<lambda>c. cubeID c = cubeId) (queue f) = int p"
    using assms(2,3,4) by (intro findIndex_first) simp_all
  with assms(2,5) have "unqueue_fn cubeId f =
      Inr ([queue f ! p], f\<lparr>queue := take p (queue f) @ drop (Suc p) (queue f)\<rparr>)"
    by (simp add: unqueue_fn_def Let_def splice_def take_Suc_conv_app_nth
        flip: Cons_nth_drop_Suc)
  with assms(1) show ?thesis
    by (simp add: unqueue_def updateFeatured_def)
qed

text \<open>
  Claim C7. The request names a cube, and the handler removes the first entry of the
  queue with that cube. For every state of the featured queue: when the cube named is
  the one at position 0 or 1, the request fails with the message that a currently
  featured cube cannot be removed, and the stored queue is unchanged; when the entry
  found is at a position \<open>p \<ge> 2\<close>, exactly that entry is removed (the entries before
  \<open>p\<close> stay, those after it move up by one) and its owner is notified.
\<close>

theorem unqueue_by_position:
  assumes "cubeId \<noteq> []" and "p < length (queue f)" and "cubeID (queue f ! p) = cubeId"
  shows "(p < 2 \<longrightarrow>
            unqueue cubeId f =
              \<lparr>reply = RedirectFeatured,
               flashes = [(''danger'', ''Cannot remove currently featured cube from queue'')],
               notified = [], featured_after = f\<rparr>)
       \<and> (2 \<le> p \<and> (\<forall>j<p. cubeID (queue f ! j) \<noteq> cubeId) \<longrightarrow>
            unqueue cubeId f =
              \<lparr>reply = RedirectFeatured, flashes = [], notified = [ownerID (queue f ! p)],
               featured_after = f\<lparr>queue := take p (queue f) @ drop (Suc p) (queue f)\<rparr>\<rparr>
            \<and> length (queue (featured_after (unqueue cubeId f))) = length (queue f) - 1
            \<and> (\<forall>i<p. queue (featured_after (unqueue cubeId f)) ! i = queue f ! i)
            \<and> (\<forall>i. p \<le> i \<and> i < length (queue f) - 1 \<longrightarrow>
                  queue (featured_after (unqueue cubeId f)) ! i = queue f ! Suc i))"
proof (intro conjI impI)
  assume "p < 2"
  with assms show "unqueue cubeId f =
              \<lparr>reply = RedirectFeatured,
               flashes = [(''danger'', ''Cannot remove currently featured cube from queue'')],
               notified = [], featured_after = f\<rparr>"
    by (rule unqueue_featured)
next
  assume a: "2 \<le> p \<and> (\<forall>j<p. cubeID (queue f ! j) \<noteq> cubeId)"
  then have eq: "unqueue cubeId f =
              \<lparr>reply = RedirectFeatured, flashes = [], notified = [ownerID (queue f ! p)],
               featured_after = f\<lparr>queue := take p (queue f) @ drop (Suc p) (queue f)\<rparr>\<rparr>"
    using assms by (intro unqueue_later) simp_all
  show "unqueue cubeId f =
              \<lparr>reply = RedirectFeatured, flashes = [], notified = [ownerID (queue f ! p)],
               featured_after = f\<lparr>queue := take p (queue f) @ drop (Suc p) (queue f)\<rparr>\<rparr>"
    by (rule eq)
  show "length (queue (featured_after (unqueue cubeId f))) = length (queue f) - 1"
    using assms(2) by (simp add: eq)
  show "\<forall>i<p. queue (featured_after (unqueue cubeId f)) ! i = queue f ! i"
    using assms(2) by (simp add: eq nth_append)
  show "\<forall>i. p \<le> i \<and> i < length (queue f) - 1 \<longrightarrow>
                  queue (featured_after (unqueue cubeId f)) ! i = queue f ! Suc i"
    using assms(2) by (auto simp add: eq nth_append min_def)
qed

theorem unqueue_by_position_witness:
  "''b'' \<noteq> [] \<and> 1 < length (queue example_featured) \<and> cubeID (queue example_featured ! 1) = ''b''
   \<and> 3 < length (queue example_featured) \<and> cubeID (queue example_featured ! 3) = ''d''
   \<and> unqueue ''b'' example_featured =
        \<lparr>reply = RedirectFeatured,
         flashes = [(''danger'', ''Cannot remove currently featured cube from queue'')],
         notified = [], featured_after = example_featured\<rparr>
   \<and> reply (unqueue ''d'' example_featured) = RedirectFeatured
   \<and> flashes (unqueue ''d'' example_featured) = []
   \<and> notified (unqueue ''d'' example_featured) = [''od'']
   \<and> queue (featured_after (unqueue ''d'' example_featured)) =
        [\<lparr>cubeID = ''a'', ownerID = ''oa''\<rparr>, \<lparr>cubeID = ''b'', ownerID = ''ob''\<rparr>,
         \<lparr>cubeID = ''c'', ownerID = ''oc''\<rparr>]"
proof -
  have q: "queue example_featured =
     [\<lparr>cubeID = ''a'', ownerID = ''oa''\<rparr>, \<lparr>cubeID = ''b'', ownerID = ''ob''\<rparr>,
      \<lparr>cubeID = ''c'', ownerID = ''oc''\<rparr>, \<lparr>cubeID = ''d'', ownerID = ''od''\<rparr>]"
    by (simp add: example_featured_def)
  have b: "''b'' \<noteq> []" "1 < length (queue example_featured)"
      "cubeID (queue example_featured ! 1) = ''b''"
    by (simp_all add: q)
  have d: "''d'' \<noteq> []" "3 < length (queue example_featured)"
      "cubeID (queue example_featured ! 3) = ''d''"
    by (simp_all add: q)
  have first: "\<forall>j<3. cubeID (queue example_featured ! j) \<noteq> ''d''"
    by (simp add: q All_less_Suc numeral_eq_Suc)
  from unqueue_by_position [OF b] have one: "unqueue ''b'' example_featured =
        \<lparr>reply = RedirectFeatured,
         flashes = [(''danger'', ''Cannot remove currently featured cube from queue'')],
         notified = [], featured_after = example_featured\<rparr>"
    by simp
  from unqueue_by_position [OF d] first have two: "unqueue ''d'' example_featured =
        \<lparr>reply = RedirectFeatured, flashes = [],
         notified = [ownerID (queue example_featured ! 3)],
         featured_after = example_featured\<lparr>queue := take 3 (queue example_featured)
            @ drop (Suc 3) (queue example_featured)\<rparr>\<rparr>"
    by simp
  from one b d show ?thesis
    unfolding two by (simp add: q)
qed

lemma move_fn_eval:
  assumes "2 < fh" and "2 < th"
  shows "move_fn cubeId (fh - 1) (th - 1) f =
     (if length (queue f) \<le> nat (fh - 1) \<or> cubeID (queue f ! nat (fh - 1)) \<noteq> cubeId then
        Inl ''Cube is not at expected position in queue''
      else if length (queue f) \<le> nat (th - 1) then
        Inl ''Target position is higher than cube length''
      else
        Inr ((), f\<lparr>queue :=
               take (nat (th - 1)) (take (nat (fh - 1)) (queue f) @ drop (Suc (nat (fh - 1))) (queue f))
               @ [queue f ! nat (fh - 1)]
               @ drop (nat (th - 1)) (take (nat (fh - 1)) (queue f) @ drop (Suc (nat (fh - 1))) (queue f))\<rparr>))"
proof -
  have c1: "(int (length (queue f)) \<le> fh - 1) = (length (queue f) \<le> nat (fh - 1))"
    using assms by linarith
  have c2: "(int (length (queue f)) \<le> th - 1) = (length (queue f) \<le> nat (th - 1))"
    using assms by linarith
  have one: "take (Suc 0) (drop n xs) = [xs ! n]" if "n < length xs" for n and xs :: "queue_entry list"
    using that by (simp add: take_Suc_conv_app_nth flip: Cons_nth_drop_Suc)
  show ?thesis
    unfolding move_fn_def c1 c2
    by (simp add: splice_def one)
qed

lemma move_eval:
  assumes "validation_messages b = []" and "move_from b = Some fh" and "move_to b = Some th"
  shows "move b f =
     (case move_fn (move_cubeId b) (fh - 1) (th - 1) f of
        Inl message \<Rightarrow>
          \<lparr>reply = RedirectFeatured, flashes = [(''danger'', message)], notified = [],
           featured_after = f\<rparr>
      | Inr (u, f') \<Rightarrow>
          \<lparr>reply = RedirectFeatured, flashes = [(''success'', ''Successfully moved cube'')],
           notified = [], featured_after = f'\<rparr>)"
  using assms by (simp add: move_def updateFeatured_def split: sum.split prod.split)

lemma validated_gt2:
  assumes "validation_messages b = []" and "move_from b = Some fh" and "move_to b = Some th"
  shows "2 < fh \<and> 2 < th \<and> move_cubeId b \<noteq> []"
  using assms by (auto simp add: validation_messages_def gt2_def split: if_splits)

lemma remove_insert:
  assumes "t \<le> length xs"
  shows "take t (take t xs @ [x] @ drop t xs) @ drop (Suc t) (take t xs @ [x] @ drop t xs) = xs"
  using assms by (simp add: min_def)

lemma insert_length:
  assumes "t \<le> length ys"
  shows "length (take t ys @ [x] @ drop t ys) = Suc (length ys)"
  using assms by simp

lemma insert_nth:
  assumes "t \<le> length ys"
  shows "(take t ys @ [x] @ drop t ys) ! t = x"
  using assms by (simp add: nth_append min_def)

text \<open>
  Claim C8. The request names a cube and, counting from 1, its position and the target
  position; the handler works with both minus one. For every state of the featured
  queue and every validated request: a target index \<open>to_i\<close> that is not below the length
  of the queue makes the request fail with a message, and the stored queue is unchanged;
  the move succeeds exactly when the cube is at the index \<open>from_i\<close> and both indices are
  below the length, and then the entry is taken out at \<open>from_i\<close> and put in at
  \<open>to_i\<close>: the queue keeps its length, holds the entry at \<open>to_i\<close>, and without that
  position it is the old queue without position \<open>from_i\<close>, so all other entries keep
  their order.
\<close>

theorem move_by_position:
  assumes "validation_messages b = []" and "move_from b = Some fh" and "move_to b = Some th"
  shows "let from_i = nat (fh - 1); to_i = nat (th - 1); q = queue f; r = move b f;
             others = take from_i q @ drop (Suc from_i) q
         in reply r = RedirectFeatured
          \<and> (length q \<le> to_i \<longrightarrow>
                featured_after r = f
                \<and> (flashes r = [(''danger'', ''Cube is not at expected position in queue'')]
                   \<or> flashes r = [(''danger'', ''Target position is higher than cube length'')]))
          \<and> ((from_i < length q \<and> cubeID (q ! from_i) = move_cubeId b \<and> to_i < length q)
               = (flashes r = [(''success'', ''Successfully moved cube'')]))
          \<and> (flashes r \<noteq> [(''success'', ''Successfully moved cube'')] \<longrightarrow> featured_after r = f)
          \<and> (flashes r = [(''success'', ''Successfully moved cube'')] \<longrightarrow>
                queue (featured_after r) = take to_i others @ [q ! from_i] @ drop to_i others
                \<and> length (queue (featured_after r)) = length q
                \<and> queue (featured_after r) ! to_i = q ! from_i
                \<and> take to_i (queue (featured_after r)) @ drop (Suc to_i) (queue (featured_after r))
                    = others
                \<and> daysBetweenRotations (featured_after r) = daysBetweenRotations f)"
proof -
  let ?fi = "nat (fh - 1)" and ?ti = "nat (th - 1)" and ?q = "queue f"
  let ?others = "take ?fi ?q @ drop (Suc ?fi) ?q"
  from validated_gt2 [OF assms] have gt: "2 < fh" "2 < th" by simp_all
  note fn = move_fn_eval [OF gt, of "move_cubeId b" f]
  note mv = move_eval [OF assms, of f]
  consider (wrong) "length ?q \<le> ?fi \<or> cubeID (?q ! ?fi) \<noteq> move_cubeId b"
    | (high) "?fi < length ?q" "cubeID (?q ! ?fi) = move_cubeId b" "length ?q \<le> ?ti"
    | (ok) "?fi < length ?q" "cubeID (?q ! ?fi) = move_cubeId b" "?ti < length ?q"
    by linarith
  then show ?thesis
  proof cases
    case wrong
    then have "move b f = \<lparr>reply = RedirectFeatured,
        flashes = [(''danger'', ''Cube is not at expected position in queue'')], notified = [],
        featured_after = f\<rparr>"
      unfolding mv fn by simp
    with wrong show ?thesis unfolding Let_def by auto
  next
    case high
    then have "move b f = \<lparr>reply = RedirectFeatured,
        flashes = [(''danger'', ''Target position is higher than cube length'')], notified = [],
        featured_after = f\<rparr>"
      unfolding mv fn by simp
    with high show ?thesis unfolding Let_def by auto
  next
    case ok
    define q' where "q' = take ?ti ?others @ [?q ! ?fi] @ drop ?ti ?others"
    from ok have eq: "move b f = \<lparr>reply = RedirectFeatured,
        flashes = [(''success'', ''Successfully moved cube'')], notified = [],
        featured_after = f\<lparr>queue := q'\<rparr>\<rparr>"
      unfolding mv fn q'_def by simp
    have rp: "reply (move b f) = RedirectFeatured"
      and fl: "flashes (move b f) = [(''success'', ''Successfully moved cube'')]"
      and fq: "queue (featured_after (move b f)) = q'"
      and fd: "daysBetweenRotations (featured_after (move b f)) = daysBetweenRotations f"
      by (simp_all add: eq)
    have len: "length ?others = length ?q - 1" using ok by simp
    then have t: "?ti \<le> length ?others" using ok by linarith
    have "length q' = Suc (length ?others)"
      unfolding q'_def using t by (rule insert_length)
    with len ok have l: "length q' = length ?q" by linarith
    have n: "q' ! ?ti = ?q ! ?fi"
      unfolding q'_def using t by (rule insert_nth)
    have r: "take ?ti q' @ drop (Suc ?ti) q' = ?others"
      unfolding q'_def using t by (rule remove_insert)
    have nothigh: "\<not> length ?q \<le> ?ti" using ok by linarith
    show ?thesis
      unfolding Let_def
    proof (intro conjI impI)
      show "reply (move b f) = RedirectFeatured" by (rule rp)
      show "(?fi < length ?q \<and> cubeID (?q ! ?fi) = move_cubeId b \<and> ?ti < length ?q)
          = (flashes (move b f) = [(''success'', ''Successfully moved cube'')])"
        using ok fl by blast
      show "queue (featured_after (move b f)) = take ?ti ?others @ [?q ! ?fi] @ drop ?ti ?others"
        unfolding fq by (rule q'_def)
      show "length (queue (featured_after (move b f))) = length ?q"
        unfolding fq by (rule l)
      show "queue (featured_after (move b f)) ! ?ti = ?q ! ?fi"
        unfolding fq by (rule n)
      show "take ?ti (queue (featured_after (move b f))) @ drop (Suc ?ti) (queue (featured_after (move b f)))
          = ?others"
        unfolding fq by (rule r)
      show "daysBetweenRotations (featured_after (move b f)) = daysBetweenRotations f"
        by (rule fd)
    next
      assume "length ?q \<le> ?ti"
      with nothigh show "featured_after (move b f) = f" by blast
    next
      assume "length ?q \<le> ?ti"
      with nothigh show "flashes (move b f) = [(''danger'', ''Cube is not at expected position in queue'')]
          \<or> flashes (move b f) = [(''danger'', ''Target position is higher than cube length'')]"
        by blast
    next
      assume "flashes (move b f) \<noteq> [(''success'', ''Successfully moved cube'')]"
      with fl show "featured_after (move b f) = f" by blast
    qed
  qed
qed

theorem move_by_position_witness:
  "validation_messages \<lparr>move_cubeId = ''c'', move_from = Some 3, move_to = Some 4\<rparr> = []
   \<and> validation_messages \<lparr>move_cubeId = ''c'', move_from = Some 3, move_to = Some 5\<rparr> = []
   \<and> flashes (move \<lparr>move_cubeId = ''c'', move_from = Some 3, move_to = Some 4\<rparr> example_featured)
        = [(''success'', ''Successfully moved cube'')]
   \<and> queue (featured_after
        (move \<lparr>move_cubeId = ''c'', move_from = Some 3, move_to = Some 4\<rparr> example_featured))
        = [\<lparr>cubeID = ''a'', ownerID = ''oa''\<rparr>, \<lparr>cubeID = ''b'', ownerID = ''ob''\<rparr>,
           \<lparr>cubeID = ''d'', ownerID = ''od''\<rparr>, \<lparr>cubeID = ''c'', ownerID = ''oc''\<rparr>]
   \<and> flashes (move \<lparr>move_cubeId = ''c'', move_from = Some 3, move_to = Some 5\<rparr> example_featured)
        = [(''danger'', ''Target position is higher than cube length'')]
   \<and> featured_after (move \<lparr>move_cubeId = ''c'', move_from = Some 3, move_to = Some 5\<rparr> example_featured)
        = example_featured"
proof -
  let ?b4 = "\<lparr>move_cubeId = ''c'', move_from = Some 3, move_to = Some 4\<rparr>"
  let ?b5 = "\<lparr>move_cubeId = ''c'', move_from = Some 3, move_to = Some 5\<rparr>"
  have q: "queue example_featured =
     [\<lparr>cubeID = ''a'', ownerID = ''oa''\<rparr>, \<lparr>cubeID = ''b'', ownerID = ''ob''\<rparr>,
      \<lparr>cubeID = ''c'', ownerID = ''oc''\<rparr>, \<lparr>cubeID = ''d'', ownerID = ''od''\<rparr>]"
    by (simp add: example_featured_def)
  have v4: "validation_messages ?b4 = []" and v5: "validation_messages ?b5 = []"
    by (simp_all add: validation_messages_def gt2_def)
  have f: "move_from ?b4 = Some 3" "move_from ?b5 = Some 3" by simp_all
  have t4: "move_to ?b4 = Some 4" and t5: "move_to ?b5 = Some 5" by simp_all
  have n: "nat (3 - 1) = 2" "nat (4 - 1) = 3" "nat (5 - 1) = 4" by simp_all
  note m4 = move_by_position [OF v4 f(1) t4, of example_featured, unfolded Let_def n]
  note m5 = move_by_position [OF v5 f(2) t5, of example_featured, unfolded Let_def n]
  from m4 have s4: "flashes (move ?b4 example_featured) = [(''success'', ''Successfully moved cube'')]"
    by (simp add: q)
  with m4 have q4: "queue (featured_after (move ?b4 example_featured))
      = take 3 (take 2 (queue example_featured) @ drop (Suc 2) (queue example_featured))
        @ [queue example_featured ! 2]
        @ drop 3 (take 2 (queue example_featured) @ drop (Suc 2) (queue example_featured))"
    by blast
  from m5 have s5: "featured_after (move ?b5 example_featured) = example_featured
      \<and> (flashes (move ?b5 example_featured) = [(''danger'', ''Cube is not at expected position in queue'')]
         \<or> flashes (move ?b5 example_featured) = [(''danger'', ''Target position is higher than cube length'')])"
    by (simp add: q)
  have e5: "flashes (move ?b5 example_featured) = [(''danger'', ''Target position is higher than cube length'')]"
    by (simp add: move_eval [OF v5 f(2) t5] move_fn_def q)
  from v4 v5 s4 q4 s5 e5 show ?thesis
    by (simp add: q)
qed

section \<open>Properties of the card updates\<close>

lemma tags_when_set: "set_u (tags_when updated i a) = set_u a"
  by (simp add: tags_when_def Let_def)

lemma update_index_colors:
  "set_u (update_index updated i a) (j, ''colors'') =
     (if j \<noteq> i then set_u a (j, ''colors'')
      else if truthy (getp (JObj updated) ''colorC'') then Some (JArr [])
      else if truthy (getp (JObj updated) ''colors'') then
        Some (JArr (filter (\<lambda>color. color \<in> set wubrg)
                 (case getp (JObj updated) ''colors'' of JArr cs \<Rightarrow> cs | _ \<Rightarrow> [])))
      else set_u a (j, ''colors''))"
  by (simp add: update_index_def Let_def tags_when_set set_when_def)

lemma fold_update_colors:
  "set_u (fold (\<lambda>index a. update_index updated (index_of index) a) selected a0) (j, ''colors'') =
     (if j \<notin> index_of ` set selected then set_u a0 (j, ''colors'')
      else if truthy (getp (JObj updated) ''colorC'') then Some (JArr [])
      else if truthy (getp (JObj updated) ''colors'') then
        Some (JArr (filter (\<lambda>color. color \<in> set wubrg)
                 (case getp (JObj updated) ''colors'' of JArr cs \<Rightarrow> cs | _ \<Rightarrow> [])))
      else set_u a0 (j, ''colors''))"
proof (induction selected arbitrary: a0)
  case Nil
  show ?case by simp
next
  case (Cons x xs)
  show ?case by (simp add: Cons.IH update_index_colors)
qed

lemma set_wubrg: "set wubrg = {JStr ''W'', JStr ''U'', JStr ''B'', JStr ''R'', JStr ''G''}"
  by (auto simp add: wubrg_def)

lemma build_updates_colors:
  "set_u (build_updates selected updated) (j, ''colors'') =
     (if j \<notin> index_of ` set selected then None
      else if truthy (getp (JObj updated) ''colorC'') then Some (JArr [])
      else if truthy (getp (JObj updated) ''colors'') then
        Some (JArr (filter (\<lambda>color. color \<in> set wubrg)
                 (case getp (JObj updated) ''colors'' of JArr cs \<Rightarrow> cs | _ \<Rightarrow> [])))
      else None)"
  by (simp add: build_updates_def fold_update_colors)

lemma valid_index:
  assumes "\<not> updatecards_invalid (JArr selected) updated" and "index \<in> set selected"
  shows "index = JNum (of_nat (index_of index))"
proof -
  from assms have ok: "isInteger index" and nn: "\<not> (case index of JNum r \<Rightarrow> r < 0 | _ \<Rightarrow> False)"
    by (auto simp add: updatecards_invalid_def Let_def list_ex_iff)
  from ok obtain r where r: "index = JNum r" and i: "of_int \<lfloor>r\<rfloor> = r"
    by (auto simp add: isInteger_def split: jsval.splits)
  from nn r have "0 \<le> r" by simp
  then have "0 \<le> \<lfloor>r\<rfloor>" by simp
  then have "of_nat (nat \<lfloor>r\<rfloor>) = (of_int \<lfloor>r\<rfloor> :: rat)" by simp
  with i have "of_nat (nat \<lfloor>r\<rfloor>) = r" by (simp only:)
  moreover have "index_of index = nat \<lfloor>r\<rfloor>" by (simp add: index_of_def r)
  ultimately have "JNum (of_nat (index_of index)) = JNum r" by (simp only:)
  with r show ?thesis by (simp only:)
qed

text \<open>
  Claim C10. The bulk update keeps the stored colors of a card within W, U, B, R, G.
  For a request that passes the validation and every selected index \<open>i\<close>: with a truthy
  \<^verbatim>\<open>colorC\<close> the value written under \<^verbatim>\<open>cards.i.colors\<close> is the empty list; otherwise, with
  a colors array, it is that array without the elements that are not one of the five
  letters; and every value that the update document holds for the colors of any card is
  a list of these letters only.
\<close>

theorem updatecards_colors:
  assumes "\<not> updatecards_invalid (JArr selected) updated" and "index \<in> set selected"
  shows "let a = build_updates selected updated; i = index_of index in
           index = JNum (of_nat i)
         \<and> updatecards True True (JArr selected) updated = (Status 200 ''true'' [], Some a)
         \<and> (truthy (getp (JObj updated) ''colorC'') \<longrightarrow> set_u a (i, ''colors'') = Some (JArr []))
         \<and> (\<forall>cs. getp (JObj updated) ''colors'' = JArr cs
                  \<and> \<not> truthy (getp (JObj updated) ''colorC'')
               \<longrightarrow> set_u a (i, ''colors'')
                     = Some (JArr (filter (\<lambda>color. color \<in> {JStr ''W'', JStr ''U'', JStr ''B'',
                                                        JStr ''R'', JStr ''G''}) cs)))
         \<and> (\<forall>j v. set_u a (j, ''colors'') = Some v
               \<longrightarrow> (\<exists>cs. v = JArr cs
                       \<and> set cs \<subseteq> {JStr ''W'', JStr ''U'', JStr ''B'', JStr ''R'', JStr ''G''}))"
proof -
  let ?a = "build_updates selected updated" and ?i = "index_of index"
  have mem: "?i \<in> index_of ` set selected" using assms(2) by (rule imageI)
  have c1: "set_u ?a (?i, ''colors'') = Some (JArr [])"
    if "truthy (getp (JObj updated) ''colorC'')"
    using that mem by (simp add: build_updates_colors)
  have c2: "set_u ?a (?i, ''colors'')
        = Some (JArr (filter (\<lambda>color. color \<in> {JStr ''W'', JStr ''U'', JStr ''B'',
                                       JStr ''R'', JStr ''G''}) cs))"
    if "getp (JObj updated) ''colors'' = JArr cs \<and> \<not> truthy (getp (JObj updated) ''colorC'')" for cs
    using that mem by (simp add: build_updates_colors set_wubrg)
  have c3: "\<exists>cs. v = JArr cs \<and> set cs \<subseteq> {JStr ''W'', JStr ''U'', JStr ''B'', JStr ''R'', JStr ''G''}"
    if "set_u ?a (j, ''colors'') = Some v" for j v
  proof -
    from that have "v = JArr [] \<or> v = JArr (filter (\<lambda>color. color \<in> set wubrg)
                 (case getp (JObj updated) ''colors'' of JArr cs \<Rightarrow> cs | _ \<Rightarrow> []))"
      by (auto simp add: build_updates_colors split: if_splits)
    then show ?thesis
      by (auto simp add: set_wubrg)
  qed
  have r: "updatecards True True (JArr selected) updated = (Status 200 ''true'' [], Some ?a)"
    using assms(1) by (simp add: updatecards_def)
  from valid_index [OF assms] c1 c2 c3 r show ?thesis
    unfolding Let_def by blast
qed

theorem updatecards_colors_witness:
  "\<not> updatecards_invalid (JArr [JNum 0, JNum 3])
        [(''colors'', JArr [JStr ''W'', JStr ''X'', JNum 3, JStr ''G''])]
   \<and> JNum 3 \<in> set [JNum 0, JNum 3]
   \<and> \<not> updatecards_invalid (JArr [JNum 0, JNum 3])
        [(''colors'', JArr [JStr ''W'']), (''colorC'', JBool True)]
   \<and> index_of (JNum 3) = 3
   \<and> updatecards True True (JArr [JNum 0, JNum 3])
        [(''colors'', JArr [JStr ''W'', JStr ''X'', JNum 3, JStr ''G''])]
      = (Status 200 ''true'' [],
         Some (build_updates [JNum 0, JNum 3]
                 [(''colors'', JArr [JStr ''W'', JStr ''X'', JNum 3, JStr ''G''])]))
   \<and> set_u (build_updates [JNum 0, JNum 3]
               [(''colors'', JArr [JStr ''W'', JStr ''X'', JNum 3, JStr ''G''])]) (3, ''colors'')
      = Some (JArr [JStr ''W'', JStr ''G''])
   \<and> set_u (build_updates [JNum 0, JNum 3]
               [(''colors'', JArr [JStr ''W'']), (''colorC'', JBool True)]) (3, ''colors'')
      = Some (JArr [])"
proof -
  let ?sel = "[JNum 0, JNum 3]"
  let ?u1 = "[(''colors'', JArr [JStr ''W'', JStr ''X'', JNum 3, JStr ''G''])]"
  let ?u2 = "[(''colors'', JArr [JStr ''W'']), (''colorC'', JBool True)]"
  have v1: "\<not> updatecards_invalid (JArr ?sel) ?u1"
    by (simp add: updatecards_invalid_def isArray_def isInteger_def)
  have v2: "\<not> updatecards_invalid (JArr ?sel) ?u2"
    by (simp add: updatecards_invalid_def isArray_def isInteger_def)
  have m: "JNum 3 \<in> set ?sel" by simp
  have i: "index_of (JNum 3) = 3" by (simp add: index_of_def)
  have g1: "getp (JObj ?u1) ''colors'' = JArr [JStr ''W'', JStr ''X'', JNum 3, JStr ''G'']"
      "\<not> truthy (getp (JObj ?u1) ''colorC'')"
    by simp_all
  have g2: "truthy (getp (JObj ?u2) ''colorC'')" by simp
  note t1 = updatecards_colors [OF v1 m, unfolded Let_def i]
  note t2 = updatecards_colors [OF v2 m, unfolded Let_def i]
  from t1 have r: "updatecards True True (JArr ?sel) ?u1
      = (Status 200 ''true'' [], Some (build_updates ?sel ?u1))"
    by blast
  from t1 g1 have "set_u (build_updates ?sel ?u1) (3, ''colors'')
      = Some (JArr (filter (\<lambda>color. color \<in> {JStr ''W'', JStr ''U'', JStr ''B'',
                                       JStr ''R'', JStr ''G''})
                     [JStr ''W'', JStr ''X'', JNum 3, JStr ''G'']))"
    by blast
  then have c1: "set_u (build_updates ?sel ?u1) (3, ''colors'') = Some (JArr [JStr ''W'', JStr ''G''])"
    by simp
  from t2 g2 have c2: "set_u (build_updates ?sel ?u2) (3, ''colors'') = Some (JArr [])"
    by blast
  from v1 v2 m i r c1 c2 show ?thesis by blast
qed

text \<open>
  The update by index: a request is answered with success only when \<^verbatim>\<open>src.index\<close> is an
  index of the card list and the card stored there (with its type line completed from
  the card database) is equivalent to \<^verbatim>\<open>src\<close>, and then that element is replaced; every
  request that is not answered with success leaves the card list as it was.
\<close>

lemma updatecard_unchanged_unless_ok:
  "fst (updatecard viewable is_owner card_type cardsAreEquivalent schema_paths src updated cube_cards)
     \<noteq> Status 200 ''true'' []
   \<Longrightarrow> snd (updatecard viewable is_owner card_type cardsAreEquivalent schema_paths src updated cube_cards)
     = cube_cards"
  by (auto simp add: updatecard_def Let_def split: if_splits jsval.splits option.splits)

lemma updatecard_ok_only_when:
  assumes "fst (updatecard viewable is_owner card_type cardsAreEquivalent schema_paths src updated cube_cards)
     = Status 200 ''true'' []"
  shows "\<exists>i stored. getp src ''index'' = JNum (of_nat i) \<and> i < length cube_cards
      \<and> stored = (if truthy (getp (JObj (cube_cards ! i)) ''type_line'') then cube_cards ! i
                   else setp (cube_cards ! i) ''type_line''
                          (card_type (getp (JObj (cube_cards ! i)) ''cardID'')))
      \<and> cardsAreEquivalent src stored
      \<and> snd (updatecard viewable is_owner card_type cardsAreEquivalent schema_paths src updated cube_cards)
          = cube_cards[i := delete_nulls (fill_from_card schema_paths stored updated)]"
proof -
  from assms obtain r where r: "getp src ''index'' = JNum r"
    by (auto simp add: updatecard_def Let_def split: if_splits jsval.splits option.splits)
  from assms r obtain c where c: "card_at cube_cards r = Some c"
    by (auto simp add: updatecard_def Let_def split: if_splits jsval.splits option.splits)
  then have int: "of_int \<lfloor>r\<rfloor> = r" and nn: "0 \<le> r" and lt: "r < of_nat (length cube_cards)"
    and cc: "c = cube_cards ! nat \<lfloor>r\<rfloor>"
    by (auto simp only: card_at_def split: if_splits)
  from nn have "0 \<le> \<lfloor>r\<rfloor>" by simp
  then have "of_nat (nat \<lfloor>r\<rfloor>) = (of_int \<lfloor>r\<rfloor> :: rat)" by simp
  with int have rn: "r = of_nat (nat \<lfloor>r\<rfloor>)" by (simp only:)
  with lt have "(of_nat (nat \<lfloor>r\<rfloor>) :: rat) < of_nat (length cube_cards)" by (simp only:)
  then have il: "nat \<lfloor>r\<rfloor> < length cube_cards" by (simp only: of_nat_less_iff)
  let ?i = "nat \<lfloor>r\<rfloor>"
  let ?stored = "if truthy (getp (JObj (cube_cards ! ?i)) ''type_line'') then cube_cards ! ?i
         else setp (cube_cards ! ?i) ''type_line'' (card_type (getp (JObj (cube_cards ! ?i)) ''cardID''))"
  from assms r c cc have main: "cardsAreEquivalent src ?stored
      \<and> snd (updatecard viewable is_owner card_type cardsAreEquivalent schema_paths src updated cube_cards)
          = cube_cards[?i := delete_nulls (fill_from_card schema_paths ?stored updated)]"
    by (auto simp add: updatecard_def Let_def split: if_splits)
  from rn have "JNum r = JNum (of_nat ?i)" by (rule arg_cong)
  with r have idx: "getp src ''index'' = JNum (of_nat ?i)" by (rule trans)
  show ?thesis
  proof (intro exI conjI)
    show "getp src ''index'' = JNum (of_nat ?i)" by (rule idx)
    show "?i < length cube_cards" by (rule il)
    show "?stored = ?stored" by (rule refl)
    show "cardsAreEquivalent src ?stored" using main by (rule conjunct1)
    show "snd (updatecard viewable is_owner card_type cardsAreEquivalent schema_paths src updated cube_cards)
          = cube_cards[?i := delete_nulls (fill_from_card schema_paths ?stored updated)]"
      using main by (rule conjunct2)
  qed
qed

lemma updatecard_no_element:
  assumes "\<not> updatecard_invalid src updated" and "getp src ''index'' = JNum r"
    and "r < of_nat (length cube_cards)" and "card_at cube_cards r = None"
  shows "updatecard True True card_type cardsAreEquivalent schema_paths src updated cube_cards
     = (Threw ''TypeError'', cube_cards)"
  using assms by (simp add: updatecard_def)

text \<open>
  Claim C9. The claim has every request whose index does not address an equivalent
  stored card rejected with a validation failure. The only guard on the index is
  \<^verbatim>\<open>src.index >= cube.cards.length\<close>: the index \<open>-1\<close> passes it, \<^verbatim>\<open>cube.cards[-1]\<close> is
  \<^verbatim>\<open>undefined\<close>, and reading its \<^verbatim>\<open>type_line\<close> throws a TypeError out of the handler,
  for every card list. The card list is unchanged, but the request is not answered
  with the validation failure.
\<close>

theorem updatecard_negative_index_throws:
  "updatecard True True card_type cardsAreEquivalent schema_paths
     (JObj [(''index'', JNum (- 1))]) [] cube_cards
   = (Threw ''TypeError'', cube_cards)"
proof -
  have v: "\<not> updatecard_invalid (JObj [(''index'', JNum (- 1))]) []"
    by (simp add: updatecard_invalid_def)
  have lt: "(- 1 :: rat) < of_nat (length cube_cards)"
    by (rule less_le_trans [of _ 0]) simp_all
  have none: "card_at cube_cards (- 1) = None"
    by (simp add: card_at_def)
  show ?thesis
    by (rule updatecard_no_element [OF v _ lt none]) simp
qed

text \<open>The bulk route rejects the same index with the validation failure.\<close>

lemma updatecards_rejects_negative_index:
  "updatecards viewable is_owner (JArr [JNum (- 1)]) updated
     = (Status 400 ''false'' ''Failed input validation'', None)"
  by (simp add: updatecards_def updatecards_invalid_def Let_def isArray_def isInteger_def)

end
